theory Spec2Isabelle
  imports Main "HOL-Library.Extended_Nat"
begin

section \<open>The WebSocket client of idex-sdk-js\<close>

text \<open>
  A shallow embedding of \<^verbatim>\<open>WebSocketClient\<close> (the connection session, its
  subscription routing and its reconnection policy) and of the message normaliser of
  \<^verbatim>\<open>src/client/webSocket/transform.ts\<close>.

  Conventions of the embedding.
  \<^item> A JavaScript value that may be \<^verbatim>\<open>undefined\<close> or \<^verbatim>\<open>null\<close> is an \<open>option\<close>;
    \<^verbatim>\<open>JSON.stringify\<close> leaves a property whose value is \<^verbatim>\<open>undefined\<close> out of the
    text, so a field that is \<open>None\<close> in a frame is a field that is not on the wire.
  \<^item> A \<^verbatim>\<open>throw\<close> (or the rejection of the promise of an \<^verbatim>\<open>async\<close> method) is a
    returned error; every operation returns the error, if any, together with the state
    it leaves behind, because what was done before the \<^verbatim>\<open>throw\<close> stays done.
  \<^item> Transport objects live in a store (\<open>sockets\<close>); the client holds a handle, so a
    transport that the client has let go of can still receive its close event.
  \<^item> Listeners are taken to be observers: a dispatch is recorded in \<open>notified\<close>.
  \<^item> A JavaScript number is an IEEE double. The numbers of the client are whole and
    not negative, or \<^verbatim>\<open>Infinity\<close>: they are naturals where the code keeps them in
    the range in which doubles count exactly, and \<open>enat\<close> where they can overflow.
\<close>

subsection \<open>Errors\<close>

text \<open>
  The client throws plain \<^verbatim>\<open>Error\<close> objects, told apart by their message.
  \<open>TokenFetchError\<close> is the rejection of the injected token fetch, \<open>TypeError\<close> what
  JavaScript raises when a method is called on \<^verbatim>\<open>undefined\<close> or a property of
  \<^verbatim>\<open>undefined\<close> is read, and \<open>SyntaxError\<close> what \<^verbatim>\<open>JSON.parse\<close> raises on a text that is
  not JSON.
\<close>

datatype error = Error string | TokenFetchError | TypeError | SyntaxError

definition NotConnectedError :: error where
  "NotConnectedError = Error ''Websocket not yet connected, await connect() method first''"

definition MissingTokenFetch :: error where
  "MissingTokenFetch =
     Error ''`websocketAuthTokenFetch` is required for authenticated subscriptions''"

definition MissingWallet :: error where
  "MissingWallet = Error ''WebSocket: Missing wallet for authenticated subscription''"

definition isConfigurationError :: "error \<Rightarrow> bool" where
  "isConfigurationError e = (e = MissingTokenFetch \<or> e = MissingWallet)"

subsection \<open>Subscriptions and request frames\<close>

text \<open>
  A subscription is an object with a \<^verbatim>\<open>name\<close>, an optional \<^verbatim>\<open>wallet\<close> and further
  properties (markets, interval, ...), declared in \<^verbatim>\<open>types/webSocket/request\<close>; they
  are carried along as \<open>params\<close>.
\<close>

record 'p subscription =
  name :: string
  wallet :: "string option"
  params :: 'p

text \<open>
  The request payload \<^verbatim>\<open>{cid, method, subscriptions, token}\<close> handed to
  \<^verbatim>\<open>JSON.stringify\<close>; its \<^verbatim>\<open>method\<close> is the field \<open>requestMethod\<close> (the word itself is a
  keyword of Isabelle).
\<close>

record 'p request =
  cid :: "string option"
  requestMethod :: string
  subscriptions :: "'p subscription list option"
  token :: "string option"

text \<open>JavaScript truthiness of an optional string: \<^verbatim>\<open>undefined\<close> and \<^verbatim>\<open>''\<close> are falsy.\<close>

definition truthy :: "string option \<Rightarrow> bool" where
  "truthy w = (case w of None \<Rightarrow> False | Some s \<Rightarrow> s \<noteq> [])"

text \<open>\<^verbatim>\<open>transform.ts\<close>, \<^verbatim>\<open>removeWalletFromSdkSubscription\<close>: copy, delete \<^verbatim>\<open>wallet\<close> if it is truthy.\<close>

definition removeWalletFromSdkSubscription :: "'p subscription \<Rightarrow> 'p subscription" where
  "removeWalletFromSdkSubscription subscription =
     (if truthy (wallet subscription) then subscription\<lparr>wallet := None\<rparr> else subscription)"

text \<open>
  \<^verbatim>\<open>isAuthenticatedSubscription\<close>: the name is one of the keys of the enum
  \<^verbatim>\<open>request.AuthenticatedSubscriptionName\<close>. The enum is declared outside the sources at
  hand, so its keys are the parameter \<open>authNames\<close>.
\<close>

definition isAuthenticatedSubscription :: "string list \<Rightarrow> 'p subscription \<Rightarrow> bool" where
  "isAuthenticatedSubscription authNames subscription = (name subscription \<in> set authNames)"

text \<open>
  \<^verbatim>\<open>Array.from(new Set(xs))\<close>: the elements are added in turn, an element already in the
  set is not added again, and the set lists its elements in insertion order.
\<close>

fun setAddAll :: "'a list \<Rightarrow> 'a list \<Rightarrow> 'a list" where
  "setAddAll s [] = s"
| "setAddAll s (x # xs) = setAddAll (if x \<in> set s then s else s @ [x]) xs"

definition arrayFromSet :: "'a list \<Rightarrow> 'a list" where
  "arrayFromSet xs = setAddAll [] xs"

definition authSubscriptionsOf :: "string list \<Rightarrow> 'p subscription list \<Rightarrow> 'p subscription list" where
  "authSubscriptionsOf authNames subs = filter (isAuthenticatedSubscription authNames) subs"

definition publicSubscriptionsOf :: "string list \<Rightarrow> 'p subscription list \<Rightarrow> 'p subscription list" where
  "publicSubscriptionsOf authNames subs =
     filter (\<lambda>subscription. \<not> isAuthenticatedSubscription authNames subscription) subs"

text \<open>The wallets of the authenticated subscriptions that have a truthy wallet, each once.\<close>

definition uniqueWallets :: "string list \<Rightarrow> 'p subscription list \<Rightarrow> string list" where
  "uniqueWallets authNames subs =
     arrayFromSet
       (List.map_filter (\<lambda>subscription. if truthy (wallet subscription) then wallet subscription else None)
          (authSubscriptionsOf authNames subs))"

subsection \<open>The token manager\<close>

text \<open>
  Modelled from the spec: the state of \<^verbatim>\<open>WebsocketTokenManager\<close> (\<^verbatim>\<open>./tokenManager\<close> is
  not among the sources): the injected token fetch, \<open>fetch\<close>, where \<open>None\<close> is a
  rejection, and the cache of the tokens resolved so far, by wallet. The model has no
  clock, so a cached token does not expire.
\<close>

record tokenManager =
  fetch :: "string \<Rightarrow> string option"
  walletTokens :: "string \<Rightarrow> string option"

text \<open>
  Modelled from the spec: \<^verbatim>\<open>getToken\<close> of the token manager, not among the sources. It
  returns the cached token of the wallet; when none is cached it calls the injected
  fetch once and caches what the fetch resolves to; when the fetch rejects it fails
  with \<open>TokenFetchError\<close> and clears the cache entry.
\<close>

definition getToken :: "string \<Rightarrow> tokenManager \<Rightarrow> (error + string) \<times> tokenManager" where
  "getToken w tm =
     (case walletTokens tm w of
        Some t \<Rightarrow> (Inr t, tm)
      | None \<Rightarrow>
          (case fetch tm w of
             None \<Rightarrow> (Inl TokenFetchError, tm\<lparr>walletTokens := (walletTokens tm)(w := None)\<rparr>)
           | Some t \<Rightarrow> (Inr t, tm\<lparr>walletTokens := (walletTokens tm)(w \<mapsto> t)\<rparr>)))"

text \<open>
  Modelled from the spec: \<^verbatim>\<open>getLastCachedToken\<close> of the token manager, not among the
  sources. It reads the cache and answers \<^verbatim>\<open>undefined\<close> when the wallet has no resolved
  token; \<^verbatim>\<open>subscribe\<close> may hand it the \<^verbatim>\<open>undefined\<close> wallet of a subscription.
\<close>

definition getLastCachedToken :: "string option \<Rightarrow> tokenManager \<Rightarrow> string option" where
  "getLastCachedToken w tm = (case w of None \<Rightarrow> None | Some a \<Rightarrow> walletTokens tm a)"

text \<open>
  \<^verbatim>\<open>Promise.all(wallets.map(getToken))\<close>: every call is made; the whole is rejected when
  one of them is.
\<close>

fun getTokens :: "string list \<Rightarrow> tokenManager \<Rightarrow> error option \<times> tokenManager" where
  "getTokens [] tm = (None, tm)"
| "getTokens (w # ws) tm =
     (case getToken w tm of
        (r, tm1) \<Rightarrow>
          (case getTokens ws tm1 of
             (rs, tm2) \<Rightarrow> ((case r of Inl e \<Rightarrow> Some e | Inr t \<Rightarrow> rs), tm2)))"

subsection \<open>The session\<close>

datatype readyState = CONNECTING | OPEN | CLOSING | CLOSED

text \<open>
  A transport object: its ready state, whether \<^verbatim>\<open>onclose\<close> holds the client's
  \<^verbatim>\<open>handleWebSocketClose\<close> (\<open>False\<close> is \<^verbatim>\<open>null\<close>), and the frames written to it.
\<close>

record 'p webSocketObj =
  readyState :: readyState
  onclose :: bool
  sent :: "'p request list"

datatype notification = ConnectListeners | DisconnectListeners | ErrorListeners | ResponseListeners

text \<open>
  The client. \<open>webSocket\<close> is the handle of the current transport (an index into
  \<open>sockets\<close>), \<open>timers\<close> the delays in milliseconds of the \<^verbatim>\<open>setTimeout(connect)\<close> calls
  made so far (a delay is a double and can be \<^verbatim>\<open>Infinity\<close>), \<open>waiting\<close> the handles polled
  by the pending \<^verbatim>\<open>waitForOpen\<close> loops of \<^verbatim>\<open>connect\<close>, \<open>notified\<close> the dispatches to the
  four sets of listeners. \<open>reconnectAttempt\<close> starts at zero and changes by
  \<^verbatim>\<open>+= 1\<close> and by the reset to zero only, so it is a natural number.
\<close>

record 'p client =
  shouldReconnectAutomatically :: bool
  reconnectAttempt :: nat
  webSocket :: "nat option"
  webSocketTokenManager :: "tokenManager option"
  sockets :: "'p webSocketObj list"
  timers :: "enat list"
  waiting :: "nat list"
  notified :: "notification list"

definition isConnected :: "'p client \<Rightarrow> bool" where
  "isConnected c =
     (case webSocket c of
        None \<Rightarrow> False
      | Some h \<Rightarrow> h < length (sockets c) \<and> readyState (sockets c ! h) = OPEN)"

text \<open>
  The frames written so far to the current transport, and \<^verbatim>\<open>this.webSocket.send\<close>, which
  appends one. \<^verbatim>\<open>sendMessage\<close> is the only caller of the latter and calls it on a
  connected session only.
\<close>

definition wire :: "'p client \<Rightarrow> 'p request list" where
  "wire c =
     (case webSocket c of
        None \<Rightarrow> []
      | Some h \<Rightarrow> if h < length (sockets c) then sent (sockets c ! h) else [])"

definition webSocketSend :: "'p request \<Rightarrow> 'p client \<Rightarrow> 'p client" where
  "webSocketSend payload c =
     (case webSocket c of
        None \<Rightarrow> c
      | Some h \<Rightarrow>
          c\<lparr>sockets := (sockets c)[h := (sockets c ! h)\<lparr>sent := sent (sockets c ! h) @ [payload]\<rparr>]\<rparr>)"

text \<open>\<^verbatim>\<open>sendMessage\<close>: \<^verbatim>\<open>throwIfDisconnected\<close>, then write the frame.\<close>

definition sendMessage :: "'p request \<Rightarrow> 'p client \<Rightarrow> error option \<times> 'p client" where
  "sendMessage payload c =
     (if \<not> isConnected c then (Some NotConnectedError, c)
      else (None, webSocketSend payload c))"

definition listSubscriptions :: "'p client \<Rightarrow> error option \<times> 'p client" where
  "listSubscriptions c =
     sendMessage \<lparr>cid = None, requestMethod = ''subscriptions'', subscriptions = None, token = None\<rparr> c"

definition unsubscribe :: "'p subscription list \<Rightarrow> 'p client \<Rightarrow> error option \<times> 'p client" where
  "unsubscribe subs c =
     sendMessage \<lparr>cid = None, requestMethod = ''unsubscribe'', subscriptions = Some subs, token = None\<rparr> c"

subsection \<open>Subscription routing\<close>

text \<open>The two kinds of subscribe frame that \<^verbatim>\<open>subscribe\<close> builds.\<close>

definition subscribeFrame ::
  "string option \<Rightarrow> 'p subscription list \<Rightarrow> string option \<Rightarrow> 'p request" where
  "subscribeFrame cid' subs tok =
     \<lparr>cid = cid', requestMethod = ''subscribe'', subscriptions = Some subs, token = tok\<rparr>"

text \<open>
  The \<^verbatim>\<open>await Promise.all(uniqueWallets.map(...))\<close> of \<^verbatim>\<open>subscribe\<close>. With no wallet the
  token manager is not touched; with a wallet and no token manager the call on
  \<^verbatim>\<open>undefined\<close> is a \<open>TypeError\<close>.
\<close>

definition prepareTokens :: "string list \<Rightarrow> 'p client \<Rightarrow> error option \<times> 'p client" where
  "prepareTokens ws c =
     (if ws = [] then (None, c)
      else (case webSocketTokenManager c of
              None \<Rightarrow> (Some TypeError, c)
            | Some tm \<Rightarrow>
                (case getTokens ws tm of
                   (r, tm') \<Rightarrow> (r, c\<lparr>webSocketTokenManager := Some tm'\<rparr>))))"

text \<open>The \<^verbatim>\<open>authSubscriptions.forEach\<close> of \<^verbatim>\<open>subscribe\<close>: one frame for each, until one throws.\<close>

fun sendEachAuth ::
  "string option \<Rightarrow> 'p subscription list \<Rightarrow> 'p client \<Rightarrow> error option \<times> 'p client" where
  "sendEachAuth cid' [] c = (None, c)"
| "sendEachAuth cid' (authSubscription # rest) c =
     (case webSocketTokenManager c of
        None \<Rightarrow> (Some TypeError, c)
      | Some tm \<Rightarrow>
          (case sendMessage
                  (subscribeFrame cid' [removeWalletFromSdkSubscription authSubscription]
                     (getLastCachedToken (wallet authSubscription) tm)) c of
             (Some e, c') \<Rightarrow> (Some e, c')
           | (None, c') \<Rightarrow> sendEachAuth cid' rest c'))"

text \<open>
  \<^verbatim>\<open>subscribe\<close>. The method is \<^verbatim>\<open>async\<close>: the result is how its promise settles and
  the state in which it does. The steps of one call are taken together: no other event
  is interleaved at its \<^verbatim>\<open>await\<close>.
\<close>

definition subscribe ::
  "string list \<Rightarrow> 'p subscription list \<Rightarrow> string option \<Rightarrow> 'p client \<Rightarrow> error option \<times> 'p client" where
  "subscribe authNames subs cid' c =
     (let authSubscriptions = authSubscriptionsOf authNames subs;
          wallets = uniqueWallets authNames subs
      in if authSubscriptions \<noteq> [] \<and> webSocketTokenManager c = None
         then (Some MissingTokenFetch, c)
         else if authSubscriptions \<noteq> [] \<and> wallets = []
         then (Some MissingWallet, c)
         else
           (case prepareTokens wallets c of
              (Some e, c1) \<Rightarrow> (Some e, c1)
            | (None, c1) \<Rightarrow>
                if length wallets = 1
                then (case webSocketTokenManager c1 of
                        None \<Rightarrow> (Some TypeError, c1)
                      | Some tm \<Rightarrow>
                          sendMessage
                            (subscribeFrame cid' (map removeWalletFromSdkSubscription subs)
                               (getLastCachedToken (Some (hd wallets)) tm)) c1)
                else
                  (let publicSubscriptions = publicSubscriptionsOf authNames subs
                   in case (if publicSubscriptions \<noteq> []
                            then sendMessage (subscribeFrame cid' publicSubscriptions None) c1
                            else (None, c1)) of
                        (Some e, c2) \<Rightarrow> (Some e, c2)
                      | (None, c2) \<Rightarrow> sendEachAuth cid' authSubscriptions c2)))"

text \<open>
  The typed wrappers call \<^verbatim>\<open>this.subscribe(subscriptions)\<close> and let go of the promise.
  The embedding has no promises: of a wrapper it keeps what the call does to the
  session, which is what \<^verbatim>\<open>subscribe\<close> does to it, taken at the moment at which the
  promise has settled. What the caller of a wrapper gets back and when, and where the
  rejection of a promise that nobody holds ends up, is the business of the JavaScript
  runtime and has no counterpart here.
\<close>

definition subscribeAuthenticated ::
  "string list \<Rightarrow> 'p subscription list \<Rightarrow> 'p client \<Rightarrow> 'p client" where
  "subscribeAuthenticated authNames subs c = snd (subscribe authNames subs None c)"

definition subscribeUnauthenticated ::
  "string list \<Rightarrow> 'p subscription list \<Rightarrow> 'p client \<Rightarrow> 'p client" where
  "subscribeUnauthenticated authNames subs c = snd (subscribe authNames subs None c)"

subsection \<open>Construction\<close>

text \<open>
  The constructor options; \<open>optWebsocketAuthTokenFetch\<close> is the injected token fetch.
  \<^verbatim>\<open>constants.SANDBOX_WEBSOCKET_API_BASE_URL\<close> is declared outside the sources at hand and is
  the parameter \<open>sandboxURL\<close>. The base URL is checked and plays no part afterwards, so
  the client of the model does not keep it.
\<close>

record options =
  optSandbox :: "bool option"
  optBaseURL :: "string option"
  optWebsocketAuthTokenFetch :: "(string \<Rightarrow> string option) option"
  optShouldReconnectAutomatically :: "bool option"

definition newWebSocketClient :: "string \<Rightarrow> options \<Rightarrow> error + 'p client" where
  "newWebSocketClient sandboxURL opts =
     (let baseURL = (if optSandbox opts = Some True then Some sandboxURL else optBaseURL opts)
      in if \<not> truthy baseURL then Inl (Error ''Must set sandbox to true'')
         else Inr \<lparr>shouldReconnectAutomatically = (optShouldReconnectAutomatically opts = Some True),
                   reconnectAttempt = 0,
                   webSocket = None,
                   webSocketTokenManager =
                     (case optWebsocketAuthTokenFetch opts of
                        None \<Rightarrow> None
                      | Some f \<Rightarrow> Some \<lparr>fetch = f, walletTokens = (\<lambda>w. None)\<rparr>),
                   sockets = [],
                   timers = [],
                   waiting = [],
                   notified = []\<rparr>)"

subsection \<open>Connection management\<close>

text \<open>\<^verbatim>\<open>createWebSocket\<close>: a new transport, with the client's handlers attached.\<close>

definition createWebSocket :: "'p client \<Rightarrow> nat \<times> 'p client" where
  "createWebSocket c =
     (length (sockets c),
      c\<lparr>webSocket := Some (length (sockets c)),
        sockets := sockets c @ [\<lparr>readyState = CONNECTING, onclose = True, sent = []\<rparr>]\<rparr>)"

definition resetReconnectionState :: "'p client \<Rightarrow> 'p client" where
  "resetReconnectionState c = c\<lparr>reconnectAttempt := 0\<rparr>"

definition fire :: "notification \<Rightarrow> 'p client \<Rightarrow> 'p client" where
  "fire n c = c\<lparr>notified := notified c @ [n]\<rparr>"

text \<open>What \<^verbatim>\<open>connect\<close> does once its \<^verbatim>\<open>await\<close> is over.\<close>

definition connectResolved :: "'p client \<Rightarrow> 'p client" where
  "connectResolved c = fire ConnectListeners (resetReconnectionState c)"

text \<open>
  \<^verbatim>\<open>connect\<close> waits for the transport in a loop that the transport alone can end:
  \<^verbatim>\<open>waitForOpen(ws)\<close> looks at the ready state; when the transport is open the promise
  is resolved and \<^verbatim>\<open>connect\<close> goes on (\<open>connectResolved\<close>); otherwise the check is set
  to run again after 100 ms, and the handle is \<open>waiting\<close>. \<open>pollWaitForOpen\<close> is that
  timer firing. So \<open>connect\<close> is the call up to its first wait, each turn of the loop
  is a step of its own, other events come between the turns, and a \<^verbatim>\<open>connect\<close> whose
  transport never opens never resolves: its handle stays in \<open>waiting\<close>.
\<close>

definition waitForOpen :: "nat \<Rightarrow> 'p client \<Rightarrow> 'p client" where
  "waitForOpen h c =
     (if h < length (sockets c) \<and> readyState (sockets c ! h) = OPEN then connectResolved c
      else c\<lparr>waiting := waiting c @ [h]\<rparr>)"

definition pollWaitForOpen :: "nat \<Rightarrow> 'p client \<Rightarrow> 'p client" where
  "pollWaitForOpen h c =
     (if h \<in> set (waiting c) then waitForOpen h (c\<lparr>waiting := remove1 h (waiting c)\<rparr>) else c)"

definition connect :: "'p client \<Rightarrow> 'p client" where
  "connect c =
     (if isConnected c then c
      else (case (case webSocket c of None \<Rightarrow> createWebSocket c | Some h \<Rightarrow> (h, c)) of
              (h, c1) \<Rightarrow> waitForOpen h c1))"

text \<open>
  The transport is the \<^verbatim>\<open>WebSocket\<close> of \<^verbatim>\<open>isomorphic-ws\<close>, a collaborator outside the
  repository; what it does is taken from the WebSocket interface. Its own \<^verbatim>\<open>close()\<close>
  starts the closing handshake; the close event comes later (\<open>transportClose\<close>).
\<close>

definition webSocketClose :: "'p webSocketObj \<Rightarrow> 'p webSocketObj" where
  "webSocketClose s = s\<lparr>readyState := (if readyState s = CLOSED then CLOSED else CLOSING)\<rparr>"

text \<open>\<^verbatim>\<open>destroyWebSocket\<close>: \<^verbatim>\<open>onclose = null\<close>, \<^verbatim>\<open>close()\<close>, \<^verbatim>\<open>this.webSocket = null\<close>.\<close>

definition destroyWebSocket :: "nat \<Rightarrow> 'p client \<Rightarrow> 'p client" where
  "destroyWebSocket h c =
     c\<lparr>sockets := (sockets c)[h := webSocketClose ((sockets c ! h)\<lparr>onclose := False\<rparr>)],
       webSocket := None\<rparr>"

definition disconnect :: "'p client \<Rightarrow> 'p client" where
  "disconnect c =
     (case webSocket c of
        None \<Rightarrow> c
      | Some h \<Rightarrow> fire DisconnectListeners (destroyWebSocket h c))"

text \<open>
  The double that an arithmetic operation returns when its exact result is the natural
  number \<open>n\<close> and \<open>n\<close> has at most 53 significant bits: \<open>n\<close> itself below \<open>2 ^ 1024\<close>,
  and \<^verbatim>\<open>Infinity\<close> from there on. (Such an \<open>n\<close> below \<open>2 ^ 1024\<close> is a double, and the
  largest double is \<open>2 ^ 1024 - 2 ^ 971\<close>.) The results of \<^verbatim>\<open>reconnect\<close> are of this kind:
  a power of two has one significant bit, a power of two times 1000 has seven.
\<close>

definition toDouble :: "nat \<Rightarrow> enat" where
  "toDouble n = (if n < 2 ^ 1024 then enat n else \<infinity>)"

text \<open>\<^verbatim>\<open>x * 1000\<close> for such an \<open>x\<close>; \<^verbatim>\<open>Infinity * 1000\<close> is \<^verbatim>\<open>Infinity\<close>.\<close>

definition timesThousand :: "enat \<Rightarrow> enat" where
  "timesThousand x = (case x of enat s \<Rightarrow> toDouble (s * 1000) | \<infinity> \<Rightarrow> \<infinity>)"

text \<open>
  \<^verbatim>\<open>x += 1\<close> on a counter: doubles count exactly up to \<open>2 ^ 53\<close>, and
  \<open>2 ^ 53 + 1\<close> is rounded back to \<open>2 ^ 53\<close>.
\<close>

definition plusOne :: "nat \<Rightarrow> nat" where
  "plusOne n = (if n < 2 ^ 53 then n + 1 else n)"

text \<open>
  \<^verbatim>\<open>reconnect\<close>: \<^verbatim>\<open>backoffSeconds = 2 ** reconnectAttempt\<close>, the attempt is counted, and
  \<^verbatim>\<open>setTimeout(connect, backoffSeconds * 1000)\<close>. \<open>timers\<close> records the delay that is
  asked for, in milliseconds. What the runtime makes of a delay that it cannot keep
  is outside the client.
\<close>

definition backoffSeconds :: "'p client \<Rightarrow> enat" where
  "backoffSeconds c = toDouble (2 ^ reconnectAttempt c)"

definition reconnect :: "'p client \<Rightarrow> 'p client" where
  "reconnect c =
     c\<lparr>reconnectAttempt := plusOne (reconnectAttempt c),
       timers := timers c @ [timesThousand (backoffSeconds c)]\<rparr>"

definition handleWebSocketClose :: "'p client \<Rightarrow> 'p client" where
  "handleWebSocketClose c =
     (let c1 = fire DisconnectListeners (c\<lparr>webSocket := None\<rparr>)
      in if shouldReconnectAutomatically c1 then reconnect c1 else c1)"

text \<open>\<^verbatim>\<open>handleWebSocketError\<close> dispatches to the error listeners.\<close>

definition handleWebSocketError :: "'p client \<Rightarrow> 'p client" where
  "handleWebSocketError c = fire ErrorListeners c"

text \<open>
  The \<^verbatim>\<open>data\<close> of a message event, by what \<^verbatim>\<open>handleWebSocketMessage\<close> makes of it: not
  a string; a string that \<^verbatim>\<open>JSON.parse\<close> rejects; a JSON text on whose value
  \<^verbatim>\<open>transformMessage\<close> reads a property of \<^verbatim>\<open>undefined\<close> or \<^verbatim>\<open>null\<close> (the text
  \<^verbatim>\<open>null\<close>, or a topic message without its \<^verbatim>\<open>data\<close>); a JSON text that
  \<^verbatim>\<open>transformMessage\<close> maps to a response. What the message says is no part of the
  state of the client.
\<close>

datatype eventData = NotAString | NotJSON | JSONWithoutData | JSONMessage

text \<open>
  \<^verbatim>\<open>handleWebSocketMessage\<close>: the check of the type, \<^verbatim>\<open>JSON.parse\<close>, \<^verbatim>\<open>transformMessage\<close>,
  and then the dispatch to the response listeners, which is reached only when none of
  the three has thrown.
\<close>

definition handleWebSocketMessage :: "eventData \<Rightarrow> 'p client \<Rightarrow> error option \<times> 'p client" where
  "handleWebSocketMessage data c =
     (case data of
        NotAString \<Rightarrow> (Some (Error ''Malformed response data''), c)
      | NotJSON \<Rightarrow> (Some SyntaxError, c)
      | JSONWithoutData \<Rightarrow> (Some TypeError, c)
      | JSONMessage \<Rightarrow> (None, fire ResponseListeners c))"

text \<open>
  The transport's events. On the close event, which a transport has once, the
  transport is closed and calls what \<^verbatim>\<open>onclose\<close> holds, if anything; the open event has
  no handler (\<^verbatim>\<open>connect\<close> polls); \<^verbatim>\<open>onerror\<close> and \<^verbatim>\<open>onmessage\<close> hold the client's
  handlers from the creation of the transport on.
\<close>

definition transportClose :: "nat \<Rightarrow> 'p client \<Rightarrow> 'p client" where
  "transportClose h c =
     (if h < length (sockets c) \<and> readyState (sockets c ! h) \<noteq> CLOSED
      then (let s = sockets c ! h;
                c1 = c\<lparr>sockets := (sockets c)[h := s\<lparr>readyState := CLOSED\<rparr>]\<rparr>
            in if onclose s then handleWebSocketClose c1 else c1)
      else c)"

definition transportOpen :: "nat \<Rightarrow> 'p client \<Rightarrow> 'p client" where
  "transportOpen h c =
     (if h < length (sockets c) \<and> readyState (sockets c ! h) = CONNECTING
      then c\<lparr>sockets := (sockets c)[h := (sockets c ! h)\<lparr>readyState := OPEN\<rparr>]\<rparr>
      else c)"

text \<open>
  Everything that can happen to a client: a call of its interface (\<open>Connect\<close> is also a
  reconnect timer firing), a poll of a pending \<^verbatim>\<open>connect\<close>, or an event of a transport.
\<close>

datatype 'p action =
    Connect
  | PollWaitForOpen nat
  | Disconnect
  | ListSubscriptions
  | Subscribe "'p subscription list" "string option"
  | SubscribeAuthenticated "'p subscription list"
  | SubscribeUnauthenticated "'p subscription list"
  | Unsubscribe "'p subscription list"
  | TransportOpen nat
  | TransportClose nat
  | TransportError nat
  | TransportMessage nat eventData

fun step :: "string list \<Rightarrow> 'p action \<Rightarrow> 'p client \<Rightarrow> 'p client" where
  "step authNames Connect c = connect c"
| "step authNames (PollWaitForOpen h) c = pollWaitForOpen h c"
| "step authNames Disconnect c = disconnect c"
| "step authNames ListSubscriptions c = snd (listSubscriptions c)"
| "step authNames (Subscribe subs cid') c = snd (subscribe authNames subs cid' c)"
| "step authNames (SubscribeAuthenticated subs) c = subscribeAuthenticated authNames subs c"
| "step authNames (SubscribeUnauthenticated subs) c = subscribeUnauthenticated authNames subs c"
| "step authNames (Unsubscribe subs) c = snd (unsubscribe subs c)"
| "step authNames (TransportOpen h) c = transportOpen h c"
| "step authNames (TransportClose h) c = transportClose h c"
| "step authNames (TransportError h) c =
     (if h < length (sockets c) then handleWebSocketError c else c)"
| "step authNames (TransportMessage h data) c =
     (if h < length (sockets c) then snd (handleWebSocketMessage data c) else c)"

fun run :: "string list \<Rightarrow> 'p action list \<Rightarrow> 'p client \<Rightarrow> 'p client" where
  "run authNames [] c = c"
| "run authNames (a # as) c = run authNames as (step authNames a c)"

text \<open>
  A row of \<open>k\<close> reconnects that fail: each time the reconnect timer fires (\<open>Connect\<close>),
  the client creates a transport, and that transport closes before it has opened. The
  transports get the handles \<open>h\<close>, \<open>h + 1\<close>, ...
\<close>

fun failedReconnects :: "nat \<Rightarrow> nat \<Rightarrow> 'p action list" where
  "failedReconnects h 0 = []"
| "failedReconnects h (Suc k) = Connect # TransportClose h # failedReconnects (Suc h) k"

section \<open>The message normaliser\<close>

text \<open>
  \<^verbatim>\<open>transform.ts\<close> maps the short-form payload of a topic to its long form. The payload
  types are declared in \<^verbatim>\<open>types/webSocket/response\<close> and \<^verbatim>\<open>types/rest/response\<close>:
  decimal quantities, identifiers and enumerations are strings, times, counts and
  sequence numbers are numbers. A field that the code carries over conditionally,
  \<^verbatim>\<open>...(x.k && { key: x.k })\<close>, is an \<open>option\<close> on both sides; the spread adds the key
  when \<^verbatim>\<open>x.k\<close> is truthy and nothing otherwise. A number is truthy unless it is zero, a
  string unless it is empty, an array always.
\<close>

definition spreadNumber :: "int option \<Rightarrow> int option" where
  "spreadNumber x = (case x of None \<Rightarrow> None | Some k \<Rightarrow> if k = 0 then None else Some k)"

definition spreadString :: "string option \<Rightarrow> string option" where
  "spreadString x = (if truthy x then x else None)"

subsection \<open>Tickers\<close>

record tickerShort =
  ticker_m :: string
  ticker_t :: int
  ticker_o :: string
  ticker_h :: string
  ticker_l :: string
  ticker_c :: string
  ticker_Q :: string
  ticker_v :: string
  ticker_q :: string
  ticker_P :: string
  ticker_n :: "int option"
  ticker_a :: string
  ticker_b :: string
  ticker_u :: int

record ticker =
  tickerMarket :: string
  tickerTime :: int
  tickerOpen :: string
  tickerHigh :: string
  tickerLow :: string
  tickerClose :: string
  tickerCloseQuantity :: string
  tickerBaseVolume :: string
  tickerQuoteVolume :: string
  tickerPercentChange :: string
  tickerNumTrades :: "int option"
  tickerAsk :: string
  tickerBid :: string
  tickerSequence :: int

definition transformTickersMessage :: "tickerShort \<Rightarrow> ticker" where
  "transformTickersMessage t =
     \<lparr>tickerMarket = ticker_m t,
      tickerTime = ticker_t t,
      tickerOpen = ticker_o t,
      tickerHigh = ticker_h t,
      tickerLow = ticker_l t,
      tickerClose = ticker_c t,
      tickerCloseQuantity = ticker_Q t,
      tickerBaseVolume = ticker_v t,
      tickerQuoteVolume = ticker_q t,
      tickerPercentChange = ticker_P t,
      tickerNumTrades = spreadNumber (ticker_n t),
      tickerAsk = ticker_a t,
      tickerBid = ticker_b t,
      tickerSequence = ticker_u t\<rparr>"

subsection \<open>Orders and their fills\<close>

record orderFillShort =
  fill_i :: string
  fill_p :: string
  fill_q :: string
  fill_Q :: string
  fill_t :: int
  fill_s :: string
  fill_u :: int
  fill_f :: string
  fill_a :: string
  fill_g :: "string option"
  fill_l :: string
  fill_T :: "string option"
  fill_S :: string

record orderFill =
  fillFillId :: string
  fillPrice :: string
  fillQuantity :: string
  fillQuoteQuantity :: string
  fillTime :: int
  fillMakerSide :: string
  fillSequence :: int
  fillFee :: string
  fillFeeAsset :: string
  fillGas :: "string option"
  fillLiquidity :: string
  fillTxId :: "string option"
  fillTxStatus :: string

definition transformOrderFill :: "orderFillShort \<Rightarrow> orderFill" where
  "transformOrderFill f =
     \<lparr>fillFillId = fill_i f,
      fillPrice = fill_p f,
      fillQuantity = fill_q f,
      fillQuoteQuantity = fill_Q f,
      fillTime = fill_t f,
      fillMakerSide = fill_s f,
      fillSequence = fill_u f,
      fillFee = fill_f f,
      fillFeeAsset = fill_a f,
      fillGas = spreadString (fill_g f),
      fillLiquidity = fill_l f,
      fillTxId = spreadString (fill_T f),
      fillTxStatus = fill_S f\<rparr>"

record orderShort =
  order_m :: string
  order_i :: string
  order_c :: string
  order_w :: string
  order_t :: int
  order_T :: int
  order_x :: string
  order_X :: string
  order_u :: "int option"
  order_o :: string
  order_S :: string
  order_q :: string
  order_Q :: "string option"
  order_z :: string
  order_Z :: string
  order_v :: "string option"
  order_p :: "string option"
  order_P :: "string option"
  order_f :: string
  order_V :: string
  order_F :: "orderFillShort list option"

record orderLong =
  orderMarket :: string
  orderOrderId :: string
  orderClientOrderId :: string
  orderWallet :: string
  orderTime :: int
  orderTimeOfOriginalOrder :: int
  orderExecutionType :: string
  orderStatus :: string
  orderOrderBookSequenceNumber :: "int option"
  orderType :: string
  orderSide :: string
  orderOriginalQuantity :: string
  orderOriginalQuoteQuantity :: "string option"
  orderExecutedQuantity :: string
  orderCumulativeQuoteQuantity :: string
  orderAvgExecutionPrice :: "string option"
  orderLimitOrderPrice :: "string option"
  orderStopOrderPrice :: "string option"
  orderTimeInForce :: string
  orderSelfTradePrevention :: string
  orderFills :: "orderFill list option"

definition transformOrdersMessage :: "orderShort \<Rightarrow> orderLong" where
  "transformOrdersMessage order =
     \<lparr>orderMarket = order_m order,
      orderOrderId = order_i order,
      orderClientOrderId = order_c order,
      orderWallet = order_w order,
      orderTime = order_t order,
      orderTimeOfOriginalOrder = order_T order,
      orderExecutionType = order_x order,
      orderStatus = order_X order,
      orderOrderBookSequenceNumber = spreadNumber (order_u order),
      orderType = order_o order,
      orderSide = order_S order,
      orderOriginalQuantity = order_q order,
      orderOriginalQuoteQuantity = spreadString (order_Q order),
      orderExecutedQuantity = order_z order,
      orderCumulativeQuoteQuantity = order_Z order,
      orderAvgExecutionPrice = spreadString (order_v order),
      orderLimitOrderPrice = spreadString (order_p order),
      orderStopOrderPrice = spreadString (order_P order),
      orderTimeInForce = order_f order,
      orderSelfTradePrevention = order_V order,
      orderFills = map_option (map transformOrderFill) (order_F order)\<rparr>"

subsection \<open>Candles\<close>

text \<open>The candle payload has a trade count as well; it is copied without a condition.\<close>

record candleShort =
  candle_m :: string
  candle_t :: int
  candle_i :: string
  candle_s :: int
  candle_e :: int
  candle_o :: string
  candle_h :: string
  candle_l :: string
  candle_c :: string
  candle_v :: string
  candle_n :: int
  candle_u :: int

record candleLong =
  candleMarket :: string
  candleTime :: int
  candleInterval :: string
  candleStart :: int
  candleEnd :: int
  candleOpen :: string
  candleHigh :: string
  candleLow :: string
  candleClose :: string
  candleVolume :: string
  candleNumTrades :: int
  candleSequence :: int

definition transformCandlesMessage :: "candleShort \<Rightarrow> candleLong" where
  "transformCandlesMessage candle =
     \<lparr>candleMarket = candle_m candle,
      candleTime = candle_t candle,
      candleInterval = candle_i candle,
      candleStart = candle_s candle,
      candleEnd = candle_e candle,
      candleOpen = candle_o candle,
      candleHigh = candle_h candle,
      candleLow = candle_l candle,
      candleClose = candle_c candle,
      candleVolume = candle_v candle,
      candleNumTrades = candle_n candle,
      candleSequence = candle_u candle\<rparr>"

subsection \<open>Level-2 order books\<close>

text \<open>The two sides are arrays of price levels; an array is truthy even when it is empty.\<close>

record l2OrderBookShort =
  l2_m :: string
  l2_t :: int
  l2_u :: int
  l2_b :: "string list list option"
  l2_a :: "string list list option"

record l2OrderBookLong =
  l2Market :: string
  l2Time :: int
  l2Sequence :: int
  l2Bids :: "string list list option"
  l2Asks :: "string list list option"

definition transformL2orderbooksMessage :: "l2OrderBookShort \<Rightarrow> l2OrderBookLong" where
  "transformL2orderbooksMessage l2orderbook =
     \<lparr>l2Market = l2_m l2orderbook,
      l2Time = l2_t l2orderbook,
      l2Sequence = l2_u l2orderbook,
      l2Bids = l2_b l2orderbook,
      l2Asks = l2_a l2orderbook\<rparr>"

section \<open>Notions used in the statements\<close>

text \<open>The token that \<open>getToken\<close> resolves for a wallet: the cached one, else the fetched one.\<close>

definition resolvedToken :: "tokenManager \<Rightarrow> string \<Rightarrow> string option" where
  "resolvedToken tm w = (case walletTokens tm w of Some t \<Rightarrow> Some t | None \<Rightarrow> fetch tm w)"

text \<open>
  The token that \<open>getToken\<close> resolves for the wallet of a subscription, in a given state
  of the token manager; none when the subscription has no wallet or the fetch rejects.
\<close>

definition walletToken :: "tokenManager \<Rightarrow> 'p subscription \<Rightarrow> string option" where
  "walletToken tm subscription =
     (case wallet subscription of
        None \<Rightarrow> None
      | Some w \<Rightarrow> (case fst (getToken w tm) of Inl e \<Rightarrow> None | Inr t \<Rightarrow> Some t))"

text \<open>The subscriptions of a frame, and the wallet fields of the subscriptions on the wire.\<close>

definition frameSubscriptions :: "'p request \<Rightarrow> 'p subscription list" where
  "frameSubscriptions f = (case subscriptions f of None \<Rightarrow> [] | Some ss \<Rightarrow> ss)"

definition walletsOnWire :: "'p client \<Rightarrow> string option list list" where
  "walletsOnWire c = map (\<lambda>f. map wallet (frameSubscriptions f)) (wire c)"

text \<open>
  \<open>subscribe\<close> gets as far as a \<^verbatim>\<open>sendMessage\<close>: there is a subscription to send, the two
  configuration checks pass and every token is resolved.
\<close>

definition reachesSend :: "string list \<Rightarrow> 'p subscription list \<Rightarrow> 'p client \<Rightarrow> bool" where
  "reachesSend authNames subs c =
     (subs \<noteq> [] \<and>
      (authSubscriptionsOf authNames subs = [] \<or>
       (case webSocketTokenManager c of
          None \<Rightarrow> False
        | Some tm \<Rightarrow>
            uniqueWallets authNames subs \<noteq> [] \<and>
            fst (getTokens (uniqueWallets authNames subs) tm) = None)))"

text \<open>
  Two states that differ at most in the frames written and in the token cache; and a
  transport whose \<^verbatim>\<open>onclose\<close> is \<^verbatim>\<open>null\<close>.
\<close>

definition onlySent :: "'p client \<Rightarrow> 'p client \<Rightarrow> bool" where
  "onlySent c c' \<longleftrightarrow>
     shouldReconnectAutomatically c' = shouldReconnectAutomatically c \<and>
     reconnectAttempt c' = reconnectAttempt c \<and>
     webSocket c' = webSocket c \<and>
     timers c' = timers c \<and>
     waiting c' = waiting c \<and>
     notified c' = notified c \<and>
     map readyState (sockets c') = map readyState (sockets c) \<and>
     map onclose (sockets c') = map onclose (sockets c)"

definition detached :: "nat \<Rightarrow> 'p client \<Rightarrow> bool" where
  "detached h c \<longleftrightarrow> h < length (sockets c) \<and> \<not> onclose (sockets c ! h)"

text \<open>
  The state of the current transport and the pending polls: while the transport is
  connecting a \<^verbatim>\<open>connect\<close> is polling it, and once it is open either a \<^verbatim>\<open>connect\<close> is
  still polling it or the reconnect attempt has been reset.
\<close>

definition pollingOrReset :: "'p client \<Rightarrow> bool" where
  "pollingOrReset c =
     (case webSocket c of
        None \<Rightarrow> True
      | Some h \<Rightarrow>
          h < length (sockets c) \<longrightarrow>
            (readyState (sockets c ! h) = CONNECTING \<longrightarrow> h \<in> set (waiting c)) \<and>
            (readyState (sockets c ! h) = OPEN \<longrightarrow> h \<in> set (waiting c) \<or> reconnectAttempt c = 0))"

subsection \<open>Concrete sessions and payloads for the examples\<close>

definition exampleAuthNames :: "string list" where
  "exampleAuthNames = [''balances'', ''orders'']"

definition exampleOptions :: options where
  "exampleOptions =
     \<lparr>optSandbox = Some True, optBaseURL = None,
      optWebsocketAuthTokenFetch = Some (\<lambda>w. Some (''token-'' @ w)),
      optShouldReconnectAutomatically = Some True\<rparr>"

definition publicOnlyOptions :: options where
  "publicOnlyOptions =
     \<lparr>optSandbox = Some True, optBaseURL = None,
      optWebsocketAuthTokenFetch = None,
      optShouldReconnectAutomatically = Some True\<rparr>"

text \<open>A fresh client, and the same client connected: \<open>exampleOptions\<close>, then \<^verbatim>\<open>connect()\<close>.\<close>

definition freshClient :: "unit client" where
  "freshClient =
     \<lparr>shouldReconnectAutomatically = True, reconnectAttempt = 0, webSocket = None,
      webSocketTokenManager = Some \<lparr>fetch = (\<lambda>w. Some (''token-'' @ w)), walletTokens = (\<lambda>w. None)\<rparr>,
      sockets = [], timers = [], waiting = [], notified = []\<rparr>"

definition connectedClient :: "unit client" where
  "connectedClient =
     \<lparr>shouldReconnectAutomatically = True, reconnectAttempt = 0, webSocket = Some 0,
      webSocketTokenManager = Some \<lparr>fetch = (\<lambda>w. Some (''token-'' @ w)), walletTokens = (\<lambda>w. None)\<rparr>,
      sockets = [\<lparr>readyState = OPEN, onclose = True, sent = []\<rparr>],
      timers = [], waiting = [], notified = [ConnectListeners]\<rparr>"

definition sub :: "string \<Rightarrow> string option \<Rightarrow> unit subscription" where
  "sub n w = \<lparr>name = n, wallet = w, params = ()\<rparr>"

definition zeroTradesTicker :: tickerShort where
  "zeroTradesTicker =
     \<lparr>ticker_m = ''ETH-USDC'', ticker_t = 1590408000000, ticker_o = ''202.11928302'',
      ticker_h = ''207.58100029'', ticker_l = ''201.85600392'', ticker_c = ''206.00192301'',
      ticker_Q = ''9.50000000'', ticker_v = ''0.00000000'', ticker_q = ''0.00000000'',
      ticker_P = ''0.00'', ticker_n = Some 0, ticker_a = ''206.00207480'',
      ticker_b = ''206.00084012'', ticker_u = 848728\<rparr>"

text \<open>A connected client constructed without a token fetch.\<close>

definition publicOnlyClient :: "unit client" where
  "publicOnlyClient =
     \<lparr>shouldReconnectAutomatically = True, reconnectAttempt = 0, webSocket = Some 0,
      webSocketTokenManager = None,
      sockets = [\<lparr>readyState = OPEN, onclose = True, sent = []\<rparr>],
      timers = [], waiting = [], notified = [ConnectListeners]\<rparr>"

text \<open>
  After a first session was closed by the transport: the reconnect timer has fired, the
  new transport has opened, and the \<^verbatim>\<open>connect\<close> of the timer has not polled it yet.
\<close>

definition reopenedClient :: "unit client" where
  "reopenedClient =
     \<lparr>shouldReconnectAutomatically = True, reconnectAttempt = 1, webSocket = Some 1,
      webSocketTokenManager = Some \<lparr>fetch = (\<lambda>w. Some (''token-'' @ w)), walletTokens = (\<lambda>w. None)\<rparr>,
      sockets = [\<lparr>readyState = CLOSED, onclose = True, sent = []\<rparr>,
                 \<lparr>readyState = OPEN, onclose = True, sent = []\<rparr>],
      timers = [1000], waiting = [1],
      notified = [ConnectListeners, DisconnectListeners]\<rparr>"

section \<open>Properties\<close>

subsection \<open>Sets of wallets and token resolution\<close>

lemma set_setAddAll: "set (setAddAll s xs) = set s \<union> set xs"
  by (induction xs arbitrary: s) auto

lemma distinct_setAddAll: "distinct s \<Longrightarrow> distinct (setAddAll s xs)"
  by (induction xs arbitrary: s) auto

lemma set_arrayFromSet: "set (arrayFromSet xs) = set xs"
  by (simp add: arrayFromSet_def set_setAddAll)

lemma distinct_arrayFromSet: "distinct (arrayFromSet xs)"
  by (simp add: arrayFromSet_def distinct_setAddAll)

lemma length_arrayFromSet: "length (arrayFromSet xs) = card (set xs)"
  using distinct_card [OF distinct_arrayFromSet, of xs] by (simp add: set_arrayFromSet)

lemma set_map_filter_eq: "set (List.map_filter f xs) = {y. \<exists>x \<in> set xs. f x = Some y}"
  by (induction xs) (auto simp: List.map_filter_simps split: option.splits)

lemma set_uniqueWallets:
  "set (uniqueWallets authNames subs) =
     {w. w \<noteq> [] \<and> (\<exists>s \<in> set (authSubscriptionsOf authNames subs). wallet s = Some w)}"
  by (auto simp: uniqueWallets_def set_arrayFromSet set_map_filter_eq truthy_def
      split: if_splits option.splits)

lemma uniqueWallets_Nil_iff:
  "uniqueWallets authNames subs = [] \<longleftrightarrow>
     (\<forall>s \<in> set (authSubscriptionsOf authNames subs). \<not> truthy (wallet s))"
proof -
  have "uniqueWallets authNames subs = [] \<longleftrightarrow> set (uniqueWallets authNames subs) = {}"
    by simp
  also have "\<dots> \<longleftrightarrow> (\<forall>s \<in> set (authSubscriptionsOf authNames subs). \<not> truthy (wallet s))"
    unfolding set_uniqueWallets by (auto simp: truthy_def split: option.splits)
  finally show ?thesis .
qed

lemma getToken_fst: "fst (getToken w tm) = (case resolvedToken tm w of None \<Rightarrow> Inl TokenFetchError | Some t \<Rightarrow> Inr t)"
  by (simp add: getToken_def resolvedToken_def split: option.splits)

lemma getToken_snd:
  "snd (getToken w tm) = tm\<lparr>walletTokens := (walletTokens tm)(w := resolvedToken tm w)\<rparr>"
  by (auto simp: getToken_def resolvedToken_def fun_upd_idem split: option.splits)

lemma resolvedToken_getToken: "resolvedToken (snd (getToken a tm)) = resolvedToken tm"
  by (rule ext) (auto simp: getToken_snd resolvedToken_def split: option.splits)

lemma getTokens_Cons_snd: "snd (getTokens (a # ws) tm) = snd (getTokens ws (snd (getToken a tm)))"
  by (simp split: prod.splits)

lemma walletTokens_getTokens:
  "walletTokens (snd (getTokens ws tm)) w =
     (if w \<in> set ws then resolvedToken tm w else walletTokens tm w)"
proof (induction ws arbitrary: tm)
  case Nil
  then show ?case by simp
next
  case (Cons a ws)
  show ?case
    unfolding getTokens_Cons_snd Cons resolvedToken_getToken
    by (simp add: getToken_snd)
qed

lemma getTokens_fst:
  "fst (getTokens ws tm) = None \<longleftrightarrow> (\<forall>w \<in> set ws. resolvedToken tm w \<noteq> None)"
proof (induction ws arbitrary: tm)
  case Nil
  then show ?case by simp
next
  case (Cons a ws)
  have "fst (getTokens (a # ws) tm) = None \<longleftrightarrow>
          resolvedToken tm a \<noteq> None \<and> fst (getTokens ws (snd (getToken a tm))) = None"
    using getToken_fst [of a tm]
    by (auto split: prod.splits sum.splits option.splits)
  then show ?case
    by (simp add: Cons resolvedToken_getToken)
qed

subsection \<open>Sending\<close>

lemma onlySent_refl: "onlySent c c"
  by (simp add: onlySent_def)

lemma onlySent_trans: "onlySent c c1 \<Longrightarrow> onlySent c1 c2 \<Longrightarrow> onlySent c c2"
  by (simp add: onlySent_def)

lemma map_update_same: "(map f xs)[i := f (xs ! i)] = map f xs"
  by (metis list_update_id map_update)

lemma onlySent_webSocketSend: "onlySent c (webSocketSend p c)"
  by (auto simp: onlySent_def webSocketSend_def map_update map_update_same split: option.splits)

lemma onlySent_isConnected: "onlySent c c' \<Longrightarrow> isConnected c' = isConnected c"
proof -
  assume a: "onlySent c c'"
  then have l: "length (sockets c') = length (sockets c)"
    unfolding onlySent_def by (metis length_map)
  have "h < length (sockets c) \<Longrightarrow> readyState (sockets c' ! h) = readyState (sockets c ! h)" for h
    using a l unfolding onlySent_def by (metis nth_map)
  then show ?thesis
    using a l by (auto simp: isConnected_def onlySent_def split: option.splits)
qed

lemma webSocketTokenManager_webSocketSend [simp]:
  "webSocketTokenManager (webSocketSend p c) = webSocketTokenManager c"
  by (simp add: webSocketSend_def split: option.splits)

lemma wire_webSocketSend: "isConnected c \<Longrightarrow> wire (webSocketSend p c) = wire c @ [p]"
  by (auto simp: isConnected_def wire_def webSocketSend_def split: option.splits)

lemma sendMessage_connected: "isConnected c \<Longrightarrow> sendMessage p c = (None, webSocketSend p c)"
  by (simp add: sendMessage_def)

lemma sendMessage_disconnected: "\<not> isConnected c \<Longrightarrow> sendMessage p c = (Some NotConnectedError, c)"
  by (simp add: sendMessage_def)

lemma onlySent_sendMessage: "onlySent c (snd (sendMessage p c))"
  by (simp add: sendMessage_def onlySent_refl onlySent_webSocketSend)

lemma sendMessage_None: "sendMessage p c = (None, c') \<Longrightarrow> isConnected c \<and> c' = webSocketSend p c"
  by (auto simp: sendMessage_def split: if_splits)

lemma sendEachAuth_connected:
  "isConnected c \<Longrightarrow> webSocketTokenManager c = Some tm \<Longrightarrow>
   fst (sendEachAuth cid' as c) = None \<and>
   wire (snd (sendEachAuth cid' as c)) =
     wire c @ map (\<lambda>a. subscribeFrame cid' [removeWalletFromSdkSubscription a]
                      (getLastCachedToken (wallet a) tm)) as \<and>
   webSocketTokenManager (snd (sendEachAuth cid' as c)) = Some tm \<and>
   onlySent c (snd (sendEachAuth cid' as c))"
proof (induction as arbitrary: c)
  case Nil
  then show ?case by (simp add: onlySent_refl)
next
  case (Cons a as)
  let ?p = "subscribeFrame cid' [removeWalletFromSdkSubscription a] (getLastCachedToken (wallet a) tm)"
  let ?c1 = "webSocketSend ?p c"
  have c1: "isConnected ?c1" "webSocketTokenManager ?c1 = Some tm"
    using Cons.prems onlySent_isConnected [OF onlySent_webSocketSend, of ?p c] by simp_all
  have e: "sendEachAuth cid' (a # as) c = sendEachAuth cid' as ?c1"
    using Cons.prems by (simp add: sendMessage_connected)
  show ?case
    unfolding e
    using Cons.IH [OF c1] wire_webSocketSend [OF Cons.prems(1), of ?p]
      onlySent_trans [OF onlySent_webSocketSend [of c ?p]]
    by simp
qed

lemma sendEachAuth_disconnected:
  "\<not> isConnected c \<Longrightarrow> webSocketTokenManager c = Some tm \<Longrightarrow> as \<noteq> [] \<Longrightarrow>
   sendEachAuth cid' as c = (Some NotConnectedError, c)"
  by (cases as) (simp_all add: sendMessage_disconnected)

lemma onlySent_sendEachAuth: "onlySent c (snd (sendEachAuth cid' as c))"
proof (induction as arbitrary: c)
  case Nil
  then show ?case by (simp add: onlySent_refl)
next
  case (Cons a as)
  show ?case
  proof (cases "webSocketTokenManager c")
    case None
    then show ?thesis by (simp add: onlySent_refl)
  next
    case (Some tm)
    show ?thesis
    proof (cases "isConnected c")
      case True
      then show ?thesis
        using Some Cons [of "webSocketSend
          (subscribeFrame cid' [removeWalletFromSdkSubscription a] (getLastCachedToken (wallet a) tm)) c"]
          onlySent_trans [OF onlySent_webSocketSend]
        by (simp add: sendMessage_connected)
    next
      case False
      then show ?thesis
        using Some by (simp add: sendMessage_disconnected onlySent_refl)
    qed
  qed
qed

lemma onlySent_prepareTokens: "onlySent c (snd (prepareTokens ws c))"
  by (auto simp: prepareTokens_def onlySent_def split: option.splits prod.splits)

lemma wire_prepareTokens: "wire (snd (prepareTokens ws c)) = wire c"
  by (auto simp: prepareTokens_def wire_def split: option.splits prod.splits)

lemma sockets_prepareTokens: "sockets (snd (prepareTokens ws c)) = sockets c"
  by (auto simp: prepareTokens_def split: option.splits prod.splits)

subsection \<open>The three routes of subscribe\<close>

lemma prepareTokens_Nil: "prepareTokens [] c = (None, c)"
  by (simp add: prepareTokens_def)

lemma prepareTokens_None:
  assumes "prepareTokens ws c = (None, c1)" and "ws \<noteq> []"
  shows "\<exists>tm tm1. webSocketTokenManager c = Some tm \<and> webSocketTokenManager c1 = Some tm1 \<and>
           (\<forall>w \<in> set ws. resolvedToken tm w \<noteq> None) \<and>
           (\<forall>w. walletTokens tm1 w = (if w \<in> set ws then resolvedToken tm w else walletTokens tm w))"
proof (cases "webSocketTokenManager c")
  case None
  then show ?thesis using assms by (simp add: prepareTokens_def)
next
  case (Some tm)
  have r: "fst (getTokens ws tm) = None" and c1: "c1 = c\<lparr>webSocketTokenManager := Some (snd (getTokens ws tm))\<rparr>"
    using assms Some by (auto simp: prepareTokens_def split: prod.splits)
  show ?thesis
    using Some r c1 walletTokens_getTokens [of ws tm] by (simp add: getTokens_fst)
qed

lemma authSubscriptions_nonempty:
  "uniqueWallets authNames subs \<noteq> [] \<Longrightarrow> authSubscriptionsOf authNames subs \<noteq> []"
  using uniqueWallets_Nil_iff [of authNames subs] by auto

lemma subscribe_not_one:
  assumes "length (uniqueWallets an subs) \<noteq> 1"
    and "authSubscriptionsOf an subs = [] \<or> (webSocketTokenManager c \<noteq> None \<and> uniqueWallets an subs \<noteq> [])"
  shows "subscribe an subs cid' c =
    (case prepareTokens (uniqueWallets an subs) c of
       (Some e, c1) \<Rightarrow> (Some e, c1)
     | (None, c1) \<Rightarrow>
         (case (if publicSubscriptionsOf an subs \<noteq> []
                then sendMessage (subscribeFrame cid' (publicSubscriptionsOf an subs) None) c1
                else (None, c1)) of
            (Some e, c2) \<Rightarrow> (Some e, c2)
          | (None, c2) \<Rightarrow> sendEachAuth cid' (authSubscriptionsOf an subs) c2))"
  using assms by (auto simp: subscribe_def Let_def split: prod.splits option.splits)

lemma subscribe_one:
  assumes "uniqueWallets an subs = [w]" and "webSocketTokenManager c \<noteq> None"
  shows "subscribe an subs cid' c =
    (case prepareTokens [w] c of
       (Some e, c1) \<Rightarrow> (Some e, c1)
     | (None, c1) \<Rightarrow>
         (case webSocketTokenManager c1 of
            None \<Rightarrow> (Some TypeError, c1)
          | Some tm \<Rightarrow>
              sendMessage (subscribeFrame cid' (map removeWalletFromSdkSubscription subs)
                (getLastCachedToken (Some w) tm)) c1))"
  using assms by (auto simp: subscribe_def Let_def split: prod.splits option.splits)

lemma subscribe_MissingTokenFetch:
  "authSubscriptionsOf an subs \<noteq> [] \<Longrightarrow> webSocketTokenManager c = None \<Longrightarrow>
   subscribe an subs cid' c = (Some MissingTokenFetch, c)"
  by (simp add: subscribe_def Let_def)

lemma subscribe_MissingWallet:
  "authSubscriptionsOf an subs \<noteq> [] \<Longrightarrow> webSocketTokenManager c \<noteq> None \<Longrightarrow>
   uniqueWallets an subs = [] \<Longrightarrow>
   subscribe an subs cid' c = (Some MissingWallet, c)"
  by (auto simp: subscribe_def Let_def)

lemma subscribe_None_tokenManager:
  assumes "subscribe an subs cid' c = (None, c')" and "authSubscriptionsOf an subs \<noteq> []"
  shows "webSocketTokenManager c \<noteq> None \<and> uniqueWallets an subs \<noteq> []"
  using assms subscribe_MissingTokenFetch [of an subs c cid'] subscribe_MissingWallet [of an subs c cid']
  by auto

lemma subscribe_many:
  assumes "2 \<le> length (uniqueWallets an subs)" and "subscribe an subs cid' c = (None, c')"
  shows "\<exists>tm tm'. webSocketTokenManager c = Some tm \<and> webSocketTokenManager c' = Some tm' \<and>
     isConnected c \<and>
     (\<forall>w \<in> set (uniqueWallets an subs). resolvedToken tm w \<noteq> None) \<and>
     (\<forall>w. walletTokens tm' w =
        (if w \<in> set (uniqueWallets an subs) then resolvedToken tm w else walletTokens tm w)) \<and>
     wire c' = wire c @
       (if publicSubscriptionsOf an subs = [] then []
        else [subscribeFrame cid' (publicSubscriptionsOf an subs) None]) @
       map (\<lambda>a. subscribeFrame cid' [removeWalletFromSdkSubscription a]
                 (getLastCachedToken (wallet a) tm'))
           (authSubscriptionsOf an subs)"
proof -
  let ?W = "uniqueWallets an subs"
  let ?A = "authSubscriptionsOf an subs"
  let ?P = "publicSubscriptionsOf an subs"
  have W: "?W \<noteq> []" "length ?W \<noteq> 1" using assms(1) by auto
  have A: "?A \<noteq> []" using W(1) by (rule authSubscriptions_nonempty)
  have T: "webSocketTokenManager c \<noteq> None" using subscribe_None_tokenManager [OF assms(2) A] by simp
  obtain r c1 where p: "prepareTokens ?W c = (r, c1)" by (cases "prepareTokens ?W c")
  have s: "(case r of Some e \<Rightarrow> (Some e, c1)
       | None \<Rightarrow>
         (case (if ?P \<noteq> [] then sendMessage (subscribeFrame cid' ?P None) c1 else (None, c1)) of
            (Some e, c2) \<Rightarrow> (Some e, c2)
          | (None, c2) \<Rightarrow> sendEachAuth cid' ?A c2)) = (None, c')"
    using subscribe_not_one [OF W(2), of c cid'] T W(1) p assms(2) by (simp split: option.splits)
  have r: "r = None" using s by (cases r) auto
  obtain c2 where e: "sendEachAuth cid' ?A c2 = (None, c')"
    and q: "if ?P = [] then c2 = c1 else sendMessage (subscribeFrame cid' ?P None) c1 = (None, c2)"
  proof (cases "?P = []")
    case True
    then show ?thesis using s r that [of c1] by simp
  next
    case False
    obtain r2 c2 where m: "sendMessage (subscribeFrame cid' ?P None) c1 = (r2, c2)"
      by (cases "sendMessage (subscribeFrame cid' ?P None) c1")
    have "r2 = None" using s r False m by (cases r2) auto
    then show ?thesis using s r False m that [of c2] by simp
  qed
  obtain tm tm1 where tm: "webSocketTokenManager c = Some tm" "webSocketTokenManager c1 = Some tm1"
      "\<forall>w \<in> set ?W. resolvedToken tm w \<noteq> None"
      "\<forall>w. walletTokens tm1 w = (if w \<in> set ?W then resolvedToken tm w else walletTokens tm w)"
    using prepareTokens_None [OF p [unfolded r] W(1)] by blast
  have c1: "isConnected c1 = isConnected c" "wire c1 = wire c"
    using onlySent_isConnected [OF onlySent_prepareTokens, of ?W c] wire_prepareTokens [of ?W c] p
    by simp_all
  have c2: "isConnected c2 = isConnected c1" "webSocketTokenManager c2 = Some tm1"
      "isConnected c1 \<Longrightarrow> wire c2 = wire c1 @ (if ?P = [] then [] else [subscribeFrame cid' ?P None])"
    using q tm(2) onlySent_isConnected [OF onlySent_sendMessage, of "subscribeFrame cid' ?P None" c1]
      wire_webSocketSend [of c1 "subscribeFrame cid' ?P None"]
    by (auto simp: sendMessage_def split: if_splits)
  have conn: "isConnected c2"
  proof (rule ccontr)
    assume "\<not> isConnected c2"
    from sendEachAuth_disconnected [OF this c2(2) A] e show False by simp
  qed
  from sendEachAuth_connected [OF conn c2(2), of cid' ?A] e
  have "wire c' = wire c2 @ map (\<lambda>a. subscribeFrame cid' [removeWalletFromSdkSubscription a]
                 (getLastCachedToken (wallet a) tm1)) ?A" "webSocketTokenManager c' = Some tm1"
    by simp_all
  then show ?thesis
    using tm c1 c2 conn by auto
qed

lemma subscribe_single:
  assumes "uniqueWallets an subs = [w]" and "subscribe an subs cid' c = (None, c')"
  shows "\<exists>tm t. webSocketTokenManager c = Some tm \<and> isConnected c \<and> resolvedToken tm w = Some t \<and>
     wire c' = wire c @ [subscribeFrame cid' (map removeWalletFromSdkSubscription subs) (Some t)]"
proof -
  have A: "authSubscriptionsOf an subs \<noteq> []"
    using assms(1) authSubscriptions_nonempty [of an subs] by simp
  have T: "webSocketTokenManager c \<noteq> None" using subscribe_None_tokenManager [OF assms(2) A] by simp
  obtain r c1 where p: "prepareTokens [w] c = (r, c1)" by (cases "prepareTokens [w] c")
  have r: "r = None" using subscribe_one [OF assms(1) T, of cid'] assms(2) p by (cases r) auto
  obtain tm tm1 where tm: "webSocketTokenManager c = Some tm" "webSocketTokenManager c1 = Some tm1"
      "resolvedToken tm w \<noteq> None" "walletTokens tm1 w = resolvedToken tm w"
    using prepareTokens_None [OF p [unfolded r]] by auto
  let ?f = "subscribeFrame cid' (map removeWalletFromSdkSubscription subs) (getLastCachedToken (Some w) tm1)"
  have s: "sendMessage ?f c1 = (None, c')"
    using subscribe_one [OF assms(1) T, of cid'] assms(2) p r tm(2) by simp
  have c1: "isConnected c1 = isConnected c" "wire c1 = wire c"
    using onlySent_isConnected [OF onlySent_prepareTokens, of "[w]" c] wire_prepareTokens [of "[w]" c] p
    by simp_all
  from sendMessage_None [OF s] have "isConnected c1" "c' = webSocketSend ?f c1" by simp_all
  then have "isConnected c" "wire c' = wire c @ [?f]"
    using c1 wire_webSocketSend [of c1 ?f] by simp_all
  then show ?thesis
    using tm by (auto simp: getLastCachedToken_def)
qed

lemma publicSubscriptionsOf_all:
  "authSubscriptionsOf an subs = [] \<Longrightarrow> publicSubscriptionsOf an subs = subs"
  by (simp add: authSubscriptionsOf_def publicSubscriptionsOf_def filter_empty_conv)

lemma subscribe_zero:
  assumes "uniqueWallets an subs = []" and "subscribe an subs cid' c = (None, c')"
  shows "authSubscriptionsOf an subs = [] \<and>
     (if subs = [] then c' = c
      else isConnected c \<and> c' = webSocketSend (subscribeFrame cid' subs None) c)"
proof -
  have A: "authSubscriptionsOf an subs = []"
    using subscribe_None_tokenManager [OF assms(2)] assms(1) by auto
  have P: "publicSubscriptionsOf an subs = subs" using A by (rule publicSubscriptionsOf_all)
  show ?thesis
  proof (cases "subs = []")
    case True
    have "subscribe an [] cid' c = (None, c)"
      by (simp add: subscribe_def authSubscriptionsOf_def publicSubscriptionsOf_def uniqueWallets_def
          arrayFromSet_def List.map_filter_simps prepareTokens_def)
    then show ?thesis using True assms(2) A by simp
  next
    case False
    obtain r2 c2 where m: "sendMessage (subscribeFrame cid' subs None) c = (r2, c2)"
      by (cases "sendMessage (subscribeFrame cid' subs None) c")
    have s: "subscribe an subs cid' c =
        (case r2 of Some e \<Rightarrow> (Some e, c2) | None \<Rightarrow> sendEachAuth cid' [] c2)"
      unfolding subscribe_not_one [of an subs c cid', unfolded assms(1) A P, simplified]
      using False m by (simp add: prepareTokens_Nil)
    have "r2 = None" using s assms(2) by (cases r2) auto
    then show ?thesis
      using s assms(2) False m A sendMessage_None [of "subscribeFrame cid' subs None" c c2] by simp
  qed
qed

subsection \<open>The delay of a reconnect\<close>

text \<open>
  \<open>2 ^ n * 1000\<close> is a double up to \<open>n = 1014\<close> and overflows from \<open>n = 1015\<close> on.
\<close>

lemma power_times_thousand_small: "n \<le> 1014 \<Longrightarrow> (2::nat) ^ n * 1000 < 2 ^ 1024"
proof -
  assume n: "n \<le> 1014"
  have "(2::nat) ^ n * 1000 < 2 ^ n * 2 ^ 10" by simp
  also have "\<dots> = 2 ^ (n + 10)" by (simp add: power_add)
  also have "\<dots> \<le> 2 ^ 1024" using n by (intro power_increasing) simp_all
  finally show ?thesis .
qed

lemma power_times_thousand_large: "1015 \<le> n \<Longrightarrow> \<not> (2::nat) ^ n * 1000 < 2 ^ 1024"
proof -
  assume n: "1015 \<le> n"
  have "(2::nat) ^ 1024 = 2 ^ (1015 + 9)" by simp
  also have "\<dots> = 2 ^ 1015 * 2 ^ 9" by (simp only: power_add)
  also have "\<dots> \<le> 2 ^ n * 2 ^ 9" using n by (intro mult_right_mono power_increasing) simp_all
  also have "\<dots> \<le> 2 ^ n * 1000" by simp
  finally show ?thesis by simp
qed

lemma toDouble_finite: "n < 2 ^ 1024 \<Longrightarrow> toDouble n = enat n"
  by (simp only: toDouble_def if_True)

lemma toDouble_infinite: "\<not> n < 2 ^ 1024 \<Longrightarrow> toDouble n = \<infinity>"
  by (simp only: toDouble_def if_False)

lemma power_small: "n < 1024 \<Longrightarrow> (2::nat) ^ n < 2 ^ 1024"
  by (rule power_strict_increasing) simp_all

lemma power_large: "\<not> n < 1024 \<Longrightarrow> \<not> (2::nat) ^ n < 2 ^ 1024"
  by (simp only: power_strict_increasing_iff [of 2 n 1024] one_less_numeral_iff
      semiring_norm not_False_eq_True)

lemma delay_finite:
  "reconnectAttempt c \<le> 1014 \<Longrightarrow>
   timesThousand (backoffSeconds c) = enat (2 ^ reconnectAttempt c * 1000)"
proof -
  assume n: "reconnectAttempt c \<le> 1014"
  then have "reconnectAttempt c < 1024" by simp
  then have "backoffSeconds c = enat (2 ^ reconnectAttempt c)"
    unfolding backoffSeconds_def by (intro toDouble_finite power_small)
  then show ?thesis
    unfolding timesThousand_def
    by (simp only: enat.case toDouble_finite [OF power_times_thousand_small [OF n]])
qed

lemma delay_infinite:
  "1015 \<le> reconnectAttempt c \<Longrightarrow> timesThousand (backoffSeconds c) = \<infinity>"
proof (cases "reconnectAttempt c < 1024")
  case True
  assume n: "1015 \<le> reconnectAttempt c"
  have "backoffSeconds c = enat (2 ^ reconnectAttempt c)"
    unfolding backoffSeconds_def using True by (intro toDouble_finite power_small)
  then show ?thesis
    unfolding timesThousand_def
    by (simp only: enat.case toDouble_infinite [OF power_times_thousand_large [OF n]])
next
  case False
  have "backoffSeconds c = \<infinity>"
    unfolding backoffSeconds_def using False by (intro toDouble_infinite power_large)
  then show ?thesis
    unfolding timesThousand_def by (simp only: enat.case)
qed

lemma plusOne_small: "n \<le> 1014 \<Longrightarrow> plusOne n = n + 1"
  by (simp add: plusOne_def)

lemma plusOne_changed: "plusOne n \<noteq> n \<Longrightarrow> plusOne n = n + 1"
  by (simp add: plusOne_def split: if_splits)

lemma reconnect_small:
  "reconnectAttempt c \<le> 1014 \<Longrightarrow>
   reconnect c = c\<lparr>reconnectAttempt := reconnectAttempt c + 1,
                   timers := timers c @ [enat (2 ^ reconnectAttempt c * 1000)]\<rparr>"
  by (simp add: reconnect_def delay_finite plusOne_small)

section \<open>The claims\<close>

text \<open>The definitions to unfold when a concrete session is evaluated.\<close>

lemmas eval_defs = subscribe_def authSubscriptionsOf_def publicSubscriptionsOf_def
  isAuthenticatedSubscription_def uniqueWallets_def arrayFromSet_def List.map_filter_simps
  truthy_def prepareTokens_def getToken_def getLastCachedToken_def sendMessage_def isConnected_def
  webSocketSend_def subscribeFrame_def removeWalletFromSdkSubscription_def wire_def
  exampleAuthNames_def connectedClient_def freshClient_def sub_def frameSubscriptions_def
  walletsOnWire_def walletToken_def

lemmas lifecycle_defs = connect_def createWebSocket_def waitForOpen_def connectResolved_def fire_def
  resetReconnectionState_def pollWaitForOpen_def disconnect_def destroyWebSocket_def
  webSocketClose_def transportOpen_def transportClose_def handleWebSocketClose_def reconnect_small
  isConnected_def

text \<open>The example sessions are states of a constructed client.\<close>

lemma examples_constructed:
  "newWebSocketClient ''wss://websocket-sandbox.idex.io/v1'' exampleOptions = Inr freshClient \<and>
   run exampleAuthNames [Connect, TransportOpen 0, PollWaitForOpen 0] freshClient = connectedClient \<and>
   run exampleAuthNames [TransportClose 0, Connect, TransportOpen 1] connectedClient = reopenedClient \<and>
   map_sum id (run exampleAuthNames [Connect, TransportOpen 0, PollWaitForOpen 0])
     (newWebSocketClient ''wss://websocket-sandbox.idex.io/v1'' publicOnlyOptions) =
     Inr publicOnlyClient"
  by (simp add: newWebSocketClient_def exampleOptions_def publicOnlyOptions_def freshClient_def
      connectedClient_def reopenedClient_def publicOnlyClient_def truthy_def lifecycle_defs
      numeral_eq_enat Let_def)

lemma length_uniqueWallets:
  "length (uniqueWallets authNames subs) =
     card {w. w \<noteq> [] \<and> (\<exists>s \<in> set (authSubscriptionsOf authNames subs). wallet s = Some w)}"
proof -
  have "distinct (uniqueWallets authNames subs)"
    by (simp add: uniqueWallets_def distinct_arrayFromSet)
  from distinct_card [OF this] show ?thesis
    by (simp add: set_uniqueWallets)
qed

subsection \<open>Subscription routing\<close>

text \<open>
  C9. \<^verbatim>\<open>subscribe\<close> called with an empty array of subscriptions completes and leaves
  the session as it was, in every state: connected or not, with or without a token
  manager. No frame is written, no token is fetched, no error is raised.
\<close>

theorem subscribe_empty: "subscribe authNames [] cid' c = (None, c)"
  by (simp add: subscribe_def authSubscriptionsOf_def publicSubscriptionsOf_def uniqueWallets_def
      arrayFromSet_def List.map_filter_simps prepareTokens_def)

text \<open>
  When \<^verbatim>\<open>subscribe\<close> completes: on a connected session, whenever the two configuration
  checks pass and every token is resolved.
\<close>

lemma subscribe_completes:
  assumes "isConnected c"
    and "authSubscriptionsOf authNames subs = [] \<or>
         (\<exists>tm. webSocketTokenManager c = Some tm \<and> uniqueWallets authNames subs \<noteq> [] \<and>
               fst (getTokens (uniqueWallets authNames subs) tm) = None)"
  shows "fst (subscribe authNames subs cid' c) = None"
proof (cases "authSubscriptionsOf authNames subs = []")
  case True
  then have W: "uniqueWallets authNames subs = []" by (simp add: uniqueWallets_Nil_iff)
  have P: "publicSubscriptionsOf authNames subs = subs" using True by (rule publicSubscriptionsOf_all)
  show ?thesis
    using subscribe_not_one [of authNames subs c cid', unfolded W True P, simplified] assms(1)
    by (cases "subs = []") (simp_all add: prepareTokens_Nil sendMessage_connected)
next
  case False
  let ?W = "uniqueWallets authNames subs"
  let ?A = "authSubscriptionsOf authNames subs"
  let ?P = "publicSubscriptionsOf authNames subs"
  from False assms(2) obtain tm where tm: "webSocketTokenManager c = Some tm" "?W \<noteq> []"
      "fst (getTokens ?W tm) = None"
    by blast
  define c1 where "c1 = c\<lparr>webSocketTokenManager := Some (snd (getTokens ?W tm))\<rparr>"
  have p: "prepareTokens ?W c = (None, c1)"
    using tm by (cases "getTokens ?W tm") (simp add: prepareTokens_def c1_def)
  have n: "isConnected c1"
    using assms(1) by (simp add: c1_def isConnected_def split: option.splits)
  have t1: "webSocketTokenManager c1 = Some (snd (getTokens ?W tm))"
    by (simp add: c1_def)
  show ?thesis
  proof (cases "length ?W = 1")
    case True
    then obtain w where w: "?W = [w]" by (cases ?W) auto
    show ?thesis
      using subscribe_one [OF w, of c cid'] tm(1) p n t1 w
      by (simp add: sendMessage_connected)
  next
    case one: False
    show ?thesis
    proof (cases "?P = []")
      case True
      then show ?thesis
        using subscribe_not_one [OF one, of c cid'] tm(1,2) p
          sendEachAuth_connected [OF n t1, of cid' ?A]
        by simp
    next
      case False
      let ?c2 = "webSocketSend (subscribeFrame cid' ?P None) c1"
      have n2: "isConnected ?c2" and t2: "webSocketTokenManager ?c2 = Some (snd (getTokens ?W tm))"
        using n t1 onlySent_isConnected [OF onlySent_webSocketSend, of "subscribeFrame cid' ?P None" c1]
        by simp_all
      show ?thesis
        using subscribe_not_one [OF one, of c cid'] tm(1,2) p n False
          sendEachAuth_connected [OF n2 t2, of cid' ?A]
        by (simp add: sendMessage_connected)
    qed
  qed
qed

lemma removeWallet_truthy:
  "truthy (wallet a) \<Longrightarrow> removeWalletFromSdkSubscription a = a\<lparr>wallet := None\<rparr>"
  by (simp add: removeWalletFromSdkSubscription_def)

lemma removeWallet_not_empty:
  "wallet s \<noteq> Some [] \<Longrightarrow> removeWalletFromSdkSubscription s = s\<lparr>wallet := None\<rparr>"
  by (cases "wallet s") (simp_all add: removeWalletFromSdkSubscription_def truthy_def)

lemma walletToken_resolved:
  "wallet a = Some w \<Longrightarrow> walletToken tm a = resolvedToken tm w"
  by (simp add: walletToken_def getToken_fst split: option.splits)

text \<open>
  C2, as amended. A \<^verbatim>\<open>subscribe\<close> call that references two or more distinct wallets,
  in which every authenticated subscription carries a non-empty wallet, and that
  completes, has written exactly these frames, in this order: one frame with all the
  public subscriptions and no token, if there is a public subscription at all; then
  one frame for each authenticated subscription, in the order of the input, holding
  that subscription alone, without its wallet, and carrying the token that \<open>getToken\<close>
  resolved for its wallet. So no frame holds subscriptions of two wallets.
\<close>

theorem subscribe_multiple_wallets:
  assumes "2 \<le> length (uniqueWallets authNames subs)"
    and "\<forall>a \<in> set (authSubscriptionsOf authNames subs). truthy (wallet a)"
    and "subscribe authNames subs cid' c = (None, c')"
  shows "\<exists>tm. webSocketTokenManager c = Some tm \<and>
     (\<forall>a \<in> set (authSubscriptionsOf authNames subs).
        \<exists>w t. wallet a = Some w \<and> fst (getToken w tm) = Inr t \<and> walletToken tm a = Some t) \<and>
     wire c' = wire c @
       (if publicSubscriptionsOf authNames subs = [] then []
        else [\<lparr>cid = cid', requestMethod = ''subscribe'',
               subscriptions = Some (publicSubscriptionsOf authNames subs), token = None\<rparr>]) @
       map (\<lambda>a. \<lparr>cid = cid', requestMethod = ''subscribe'',
                  subscriptions = Some [a\<lparr>wallet := None\<rparr>], token = walletToken tm a\<rparr>)
           (authSubscriptionsOf authNames subs)"
proof -
  let ?A = "authSubscriptionsOf authNames subs"
  from subscribe_many [OF assms(1,3)] obtain tm tm' where
    m: "webSocketTokenManager c = Some tm"
      "\<forall>w \<in> set (uniqueWallets authNames subs). resolvedToken tm w \<noteq> None"
      "\<forall>w. walletTokens tm' w =
        (if w \<in> set (uniqueWallets authNames subs) then resolvedToken tm w else walletTokens tm w)"
      "wire c' = wire c @
       (if publicSubscriptionsOf authNames subs = [] then []
        else [subscribeFrame cid' (publicSubscriptionsOf authNames subs) None]) @
       map (\<lambda>a. subscribeFrame cid' [removeWalletFromSdkSubscription a]
                 (getLastCachedToken (wallet a) tm'))
           ?A"
    by blast
  have tok: "\<exists>w t. wallet a = Some w \<and> fst (getToken w tm) = Inr t \<and> walletToken tm a = Some t \<and>
      getLastCachedToken (wallet a) tm' = Some t"
    if a: "a \<in> set ?A" for a
  proof -
    from assms(2) a obtain w where w: "wallet a = Some w" "w \<noteq> []"
      by (auto simp: truthy_def split: option.splits)
    then have "w \<in> set (uniqueWallets authNames subs)"
      using a by (auto simp: set_uniqueWallets)
    then obtain t where "resolvedToken tm w = Some t" "walletTokens tm' w = Some t"
      using m(2,3) by auto
    then show ?thesis
      using w by (simp add: getToken_fst getLastCachedToken_def walletToken_resolved)
  qed
  have frames: "map (\<lambda>a. subscribeFrame cid' [removeWalletFromSdkSubscription a]
                 (getLastCachedToken (wallet a) tm')) ?A =
      map (\<lambda>a. \<lparr>cid = cid', requestMethod = ''subscribe'',
                  subscriptions = Some [a\<lparr>wallet := None\<rparr>], token = walletToken tm a\<rparr>) ?A"
  proof (rule map_cong [OF refl])
    fix a assume a: "a \<in> set ?A"
    from tok [OF a] assms(2) a
    show "subscribeFrame cid' [removeWalletFromSdkSubscription a] (getLastCachedToken (wallet a) tm') =
        \<lparr>cid = cid', requestMethod = ''subscribe'',
         subscriptions = Some [a\<lparr>wallet := None\<rparr>], token = walletToken tm a\<rparr>"
      by (auto simp: subscribeFrame_def removeWallet_truthy)
  qed
  have "\<forall>a \<in> set ?A. \<exists>w t. wallet a = Some w \<and> fst (getToken w tm) = Inr t \<and> walletToken tm a = Some t"
    using tok by blast
  moreover have "wire c' = wire c @
       (if publicSubscriptionsOf authNames subs = [] then []
        else [\<lparr>cid = cid', requestMethod = ''subscribe'',
               subscriptions = Some (publicSubscriptionsOf authNames subs), token = None\<rparr>]) @
       map (\<lambda>a. \<lparr>cid = cid', requestMethod = ''subscribe'',
                  subscriptions = Some [a\<lparr>wallet := None\<rparr>], token = walletToken tm a\<rparr>) ?A"
    unfolding m(4) frames by (simp add: subscribeFrame_def)
  ultimately show ?thesis using m(1) by blast
qed

theorem subscribe_multiple_wallets_witness:
  "2 \<le> length (uniqueWallets exampleAuthNames
       [sub ''tickers'' None, sub ''orders'' (Some ''0xA''), sub ''balances'' (Some ''0xB'')]) \<and>
   fst (subscribe exampleAuthNames
       [sub ''tickers'' None, sub ''orders'' (Some ''0xA''), sub ''balances'' (Some ''0xB'')]
       (Some ''c1'') connectedClient) = None \<and>
   wire (snd (subscribe exampleAuthNames
       [sub ''tickers'' None, sub ''orders'' (Some ''0xA''), sub ''balances'' (Some ''0xB'')]
       (Some ''c1'') connectedClient)) =
     [\<lparr>cid = Some ''c1'', requestMethod = ''subscribe'',
       subscriptions = Some [\<lparr>name = ''tickers'', wallet = None, params = ()\<rparr>], token = None\<rparr>,
      \<lparr>cid = Some ''c1'', requestMethod = ''subscribe'',
       subscriptions = Some [\<lparr>name = ''orders'', wallet = None, params = ()\<rparr>],
       token = Some ''token-0xA''\<rparr>,
      \<lparr>cid = Some ''c1'', requestMethod = ''subscribe'',
       subscriptions = Some [\<lparr>name = ''balances'', wallet = None, params = ()\<rparr>],
       token = Some ''token-0xB''\<rparr>]"
proof -
  let ?subs = "[sub ''tickers'' None, sub ''orders'' (Some ''0xA''), sub ''balances'' (Some ''0xB'')]"
  let ?r = "subscribe exampleAuthNames ?subs (Some ''c1'') connectedClient"
  have h1: "2 \<le> length (uniqueWallets exampleAuthNames ?subs)"
    by (simp add: eval_defs)
  have h2: "\<forall>a \<in> set (authSubscriptionsOf exampleAuthNames ?subs). truthy (wallet a)"
    by (simp add: eval_defs)
  have h4: "fst ?r = None"
    by (simp add: eval_defs Let_def)
  then have h3: "?r = (None, snd ?r)"
    by (cases ?r) simp
  from subscribe_multiple_wallets [OF h1 h2 h3]
  obtain tm where "webSocketTokenManager connectedClient = Some tm"
    and "wire (snd ?r) = wire connectedClient @
       (if publicSubscriptionsOf exampleAuthNames ?subs = [] then []
        else [\<lparr>cid = Some ''c1'', requestMethod = ''subscribe'',
               subscriptions = Some (publicSubscriptionsOf exampleAuthNames ?subs), token = None\<rparr>]) @
       map (\<lambda>a. \<lparr>cid = Some ''c1'', requestMethod = ''subscribe'',
                  subscriptions = Some [a\<lparr>wallet := None\<rparr>], token = walletToken tm a\<rparr>)
           (authSubscriptionsOf exampleAuthNames ?subs)"
    by blast
  then have "wire (snd ?r) =
     [\<lparr>cid = Some ''c1'', requestMethod = ''subscribe'',
       subscriptions = Some [\<lparr>name = ''tickers'', wallet = None, params = ()\<rparr>], token = None\<rparr>,
      \<lparr>cid = Some ''c1'', requestMethod = ''subscribe'',
       subscriptions = Some [\<lparr>name = ''orders'', wallet = None, params = ()\<rparr>],
       token = Some ''token-0xA''\<rparr>,
      \<lparr>cid = Some ''c1'', requestMethod = ''subscribe'',
       subscriptions = Some [\<lparr>name = ''balances'', wallet = None, params = ()\<rparr>],
       token = Some ''token-0xB''\<rparr>]"
    by (auto simp: eval_defs)
  with h1 h4 show ?thesis by blast
qed

text \<open>
  C2 as stated speaks of every call that references two or more wallets. On the
  connected example session, the call with the authenticated subscriptions
  \<^verbatim>\<open>orders\<close> of wallet \<^verbatim>\<open>0xA\<close>, \<^verbatim>\<open>balances\<close> of wallet \<^verbatim>\<open>0xB\<close>, \<^verbatim>\<open>orders\<close> without a
  wallet and \<^verbatim>\<open>balances\<close> with the empty string as its wallet references two wallets
  and completes. It writes four frames: the third carries no token, and the fourth
  carries no token and still has its wallet field.
\<close>

theorem subscribe_multiple_wallets_counterexample:
  "2 \<le> length (uniqueWallets exampleAuthNames
       [sub ''orders'' (Some ''0xA''), sub ''balances'' (Some ''0xB''), sub ''orders'' None,
        sub ''balances'' (Some '''')]) \<and>
   fst (subscribe exampleAuthNames
       [sub ''orders'' (Some ''0xA''), sub ''balances'' (Some ''0xB''), sub ''orders'' None,
        sub ''balances'' (Some '''')] None connectedClient) = None \<and>
   wire (snd (subscribe exampleAuthNames
       [sub ''orders'' (Some ''0xA''), sub ''balances'' (Some ''0xB''), sub ''orders'' None,
        sub ''balances'' (Some '''')] None connectedClient)) =
     [\<lparr>cid = None, requestMethod = ''subscribe'',
       subscriptions = Some [\<lparr>name = ''orders'', wallet = None, params = ()\<rparr>],
       token = Some ''token-0xA''\<rparr>,
      \<lparr>cid = None, requestMethod = ''subscribe'',
       subscriptions = Some [\<lparr>name = ''balances'', wallet = None, params = ()\<rparr>],
       token = Some ''token-0xB''\<rparr>,
      \<lparr>cid = None, requestMethod = ''subscribe'',
       subscriptions = Some [\<lparr>name = ''orders'', wallet = None, params = ()\<rparr>],
       token = None\<rparr>,
      \<lparr>cid = None, requestMethod = ''subscribe'',
       subscriptions = Some [\<lparr>name = ''balances'', wallet = Some '''', params = ()\<rparr>],
       token = None\<rparr>]"
  by (simp add: eval_defs Let_def)

text \<open>
  C3, as amended. A \<^verbatim>\<open>subscribe\<close> call that references at most one distinct wallet
  and completes has written no frame when the array of subscriptions is empty, and
  otherwise exactly one frame, holding all the subscriptions in the order of the
  input, each without its wallet; the frame carries no token when there is no
  authenticated subscription, and otherwise the token that \<open>getToken\<close> resolved for the
  one wallet. The statement is about the calls in which no wallet is the empty string
  and in which, when no wallet is referenced, no subscription has a wallet field; it
  says nothing about the wallet fields of the other calls.
\<close>

theorem subscribe_at_most_one_wallet:
  assumes "length (uniqueWallets authNames subs) \<le> 1"
    and "\<forall>s \<in> set subs. wallet s \<noteq> Some ''''"
    and "uniqueWallets authNames subs = [] \<longrightarrow> (\<forall>s \<in> set subs. wallet s = None)"
    and "subscribe authNames subs cid' c = (None, c')"
  shows "(subs = [] \<longrightarrow> wire c' = wire c) \<and>
     (subs \<noteq> [] \<longrightarrow>
        (\<exists>tok. wire c' = wire c @
             [\<lparr>cid = cid', requestMethod = ''subscribe'',
               subscriptions = Some (map (\<lambda>s. s\<lparr>wallet := None\<rparr>) subs), token = tok\<rparr>] \<and>
           (authSubscriptionsOf authNames subs = [] \<longrightarrow> tok = None) \<and>
           (authSubscriptionsOf authNames subs \<noteq> [] \<longrightarrow>
              (\<exists>w tm t. uniqueWallets authNames subs = [w] \<and> webSocketTokenManager c = Some tm \<and>
                 fst (getToken w tm) = Inr t \<and> tok = Some t))))"
proof (intro conjI impI)
  assume "subs = []"
  then have "subscribe authNames subs cid' c = (None, c)"
    by (simp add: subscribe_def authSubscriptionsOf_def publicSubscriptionsOf_def uniqueWallets_def
        arrayFromSet_def List.map_filter_simps prepareTokens_def)
  then show "wire c' = wire c" using assms(4) by simp
next
  assume ne: "subs \<noteq> []"
  consider (zero) "uniqueWallets authNames subs = []" | (one) w where "uniqueWallets authNames subs = [w]"
    using assms(1) by (cases "uniqueWallets authNames subs") auto
  then show "\<exists>tok. wire c' = wire c @
             [\<lparr>cid = cid', requestMethod = ''subscribe'',
               subscriptions = Some (map (\<lambda>s. s\<lparr>wallet := None\<rparr>) subs), token = tok\<rparr>] \<and>
           (authSubscriptionsOf authNames subs = [] \<longrightarrow> tok = None) \<and>
           (authSubscriptionsOf authNames subs \<noteq> [] \<longrightarrow>
              (\<exists>w tm t. uniqueWallets authNames subs = [w] \<and> webSocketTokenManager c = Some tm \<and>
                 fst (getToken w tm) = Inr t \<and> tok = Some t))"
  proof cases
    case zero
    from subscribe_zero [OF zero assms(4)] ne
    have A: "authSubscriptionsOf authNames subs = []"
      and w: "wire c' = wire c @ [subscribeFrame cid' subs None]"
      using wire_webSocketSend by auto
    have "map (\<lambda>s. s\<lparr>wallet := None\<rparr>) subs = subs"
      using assms(3) zero by (simp add: map_idI)
    then show ?thesis
      using A w by (simp add: subscribeFrame_def)
  next
    case one
    from subscribe_single [OF one assms(4)] obtain tm t where
      s: "webSocketTokenManager c = Some tm" "resolvedToken tm w = Some t"
        "wire c' = wire c @ [subscribeFrame cid' (map removeWalletFromSdkSubscription subs) (Some t)]"
      by blast
    have "map removeWalletFromSdkSubscription subs = map (\<lambda>s. s\<lparr>wallet := None\<rparr>) subs"
      using assms(2) by (intro map_cong [OF refl]) (simp add: removeWallet_not_empty)
    moreover have "authSubscriptionsOf authNames subs \<noteq> []"
      using one authSubscriptions_nonempty [of authNames subs] by simp
    ultimately show ?thesis
      using s one by (simp add: subscribeFrame_def getToken_fst)
  qed
qed

theorem subscribe_at_most_one_wallet_witness:
  "length (uniqueWallets exampleAuthNames
       [sub ''tickers'' None, sub ''orders'' (Some ''0xA''), sub ''balances'' None]) \<le> 1 \<and>
   fst (subscribe exampleAuthNames
       [sub ''tickers'' None, sub ''orders'' (Some ''0xA''), sub ''balances'' None]
       None connectedClient) = None \<and>
   wire (snd (subscribe exampleAuthNames
       [sub ''tickers'' None, sub ''orders'' (Some ''0xA''), sub ''balances'' None]
       None connectedClient)) =
     [\<lparr>cid = None, requestMethod = ''subscribe'',
       subscriptions = Some [\<lparr>name = ''tickers'', wallet = None, params = ()\<rparr>,
                             \<lparr>name = ''orders'', wallet = None, params = ()\<rparr>,
                             \<lparr>name = ''balances'', wallet = None, params = ()\<rparr>],
       token = Some ''token-0xA''\<rparr>] \<and>
   uniqueWallets exampleAuthNames [sub ''tickers'' None, sub ''candles'' None] = [] \<and>
   fst (subscribe exampleAuthNames [sub ''tickers'' None, sub ''candles'' None]
       (Some ''c2'') connectedClient) = None \<and>
   wire (snd (subscribe exampleAuthNames [sub ''tickers'' None, sub ''candles'' None]
       (Some ''c2'') connectedClient)) =
     [\<lparr>cid = Some ''c2'', requestMethod = ''subscribe'',
       subscriptions = Some [\<lparr>name = ''tickers'', wallet = None, params = ()\<rparr>,
                             \<lparr>name = ''candles'', wallet = None, params = ()\<rparr>],
       token = None\<rparr>] \<and>
   wire (snd (subscribe exampleAuthNames ([] :: unit subscription list) None connectedClient)) = []"
proof -
  let ?subs = "[sub ''tickers'' None, sub ''orders'' (Some ''0xA''), sub ''balances'' None]"
  let ?r = "subscribe exampleAuthNames ?subs None connectedClient"
  let ?pub = "[sub ''tickers'' None, sub ''candles'' None]"
  let ?p = "subscribe exampleAuthNames ?pub (Some ''c2'') connectedClient"
  let ?e = "subscribe exampleAuthNames ([] :: unit subscription list) None connectedClient"
  have u: "uniqueWallets exampleAuthNames ?subs = [''0xA'']"
    by (simp add: eval_defs)
  then have h1: "length (uniqueWallets exampleAuthNames ?subs) \<le> 1"
    by simp
  have h2: "\<forall>s \<in> set ?subs. wallet s \<noteq> Some ''''"
    by (simp add: sub_def)
  have h3: "uniqueWallets exampleAuthNames ?subs = [] \<longrightarrow> (\<forall>s \<in> set ?subs. wallet s = None)"
    using u by simp
  have h5: "fst ?r = None"
    by (simp add: eval_defs Let_def)
  then have h4: "?r = (None, snd ?r)"
    by (cases ?r) simp
  have a: "authSubscriptionsOf exampleAuthNames ?subs \<noteq> []"
    by (simp add: eval_defs)
  have n: "?subs \<noteq> []" by simp
  from subscribe_at_most_one_wallet [OF h1 h2 h3 h4] n a u
  obtain tok tm t where "wire (snd ?r) = wire connectedClient @
        [\<lparr>cid = None, requestMethod = ''subscribe'',
          subscriptions = Some (map (\<lambda>s. s\<lparr>wallet := None\<rparr>) ?subs), token = tok\<rparr>]"
    and "webSocketTokenManager connectedClient = Some tm"
    and "fst (getToken ''0xA'' tm) = Inr t" and "tok = Some t"
    by auto
  then have r: "wire (snd ?r) =
     [\<lparr>cid = None, requestMethod = ''subscribe'',
       subscriptions = Some [\<lparr>name = ''tickers'', wallet = None, params = ()\<rparr>,
                             \<lparr>name = ''orders'', wallet = None, params = ()\<rparr>,
                             \<lparr>name = ''balances'', wallet = None, params = ()\<rparr>],
       token = Some ''token-0xA''\<rparr>]"
    by (auto simp: eval_defs)
  have v: "uniqueWallets exampleAuthNames ?pub = []"
    by (simp add: eval_defs)
  then have p1: "length (uniqueWallets exampleAuthNames ?pub) \<le> 1"
    by simp
  have p2: "\<forall>s \<in> set ?pub. wallet s \<noteq> Some ''''"
    by (simp add: sub_def)
  have p3: "uniqueWallets exampleAuthNames ?pub = [] \<longrightarrow> (\<forall>s \<in> set ?pub. wallet s = None)"
    by (simp add: sub_def)
  have p5: "fst ?p = None"
    by (simp add: eval_defs Let_def)
  then have p4: "?p = (None, snd ?p)"
    by (cases ?p) simp
  have b: "authSubscriptionsOf exampleAuthNames ?pub = []" "?pub \<noteq> []"
    by (simp_all add: eval_defs)
  from subscribe_at_most_one_wallet [OF p1 p2 p3 p4] b
  have "wire (snd ?p) = wire connectedClient @
        [\<lparr>cid = Some ''c2'', requestMethod = ''subscribe'',
          subscriptions = Some (map (\<lambda>s. s\<lparr>wallet := None\<rparr>) ?pub), token = None\<rparr>]"
    by auto
  then have p: "wire (snd ?p) =
     [\<lparr>cid = Some ''c2'', requestMethod = ''subscribe'',
       subscriptions = Some [\<lparr>name = ''tickers'', wallet = None, params = ()\<rparr>,
                             \<lparr>name = ''candles'', wallet = None, params = ()\<rparr>],
       token = None\<rparr>]"
    by (simp add: eval_defs)
  have e1: "length (uniqueWallets exampleAuthNames ([] :: unit subscription list)) \<le> 1"
    by (simp add: eval_defs)
  have e3: "uniqueWallets exampleAuthNames ([] :: unit subscription list) = [] \<longrightarrow>
      (\<forall>s \<in> set ([] :: unit subscription list). wallet s = None)"
    by simp
  have e4: "?e = (None, snd ?e)"
    by (simp add: eval_defs Let_def)
  from subscribe_at_most_one_wallet [OF e1 _ e3 e4]
  have e: "wire (snd ?e) = []"
    by (simp add: connectedClient_def wire_def)
  show ?thesis
    using h1 h5 r v p5 p e by blast
qed

text \<open>
  C3 as stated promises exactly one frame for zero wallets. On the connected example
  session a \<^verbatim>\<open>subscribe\<close> with no subscription references no wallet, completes, and
  writes nothing: the public frame is guarded by \<^verbatim>\<open>publicSubscriptions.length > 0\<close>.
\<close>

theorem subscribe_empty_counterexample:
  "length (uniqueWallets exampleAuthNames ([] :: unit subscription list)) \<le> 1 \<and>
   isConnected connectedClient \<and>
   fst (subscribe exampleAuthNames [] None connectedClient) = None \<and>
   wire (snd (subscribe exampleAuthNames [] None connectedClient)) = wire connectedClient \<and>
   wire connectedClient = []"
  by (simp add: eval_defs Let_def)

text \<open>
  Where a wallet can stay: when \<^verbatim>\<open>subscribe\<close> completes, a subscription that it has
  written with a non-empty wallet is a public subscription of a call that does not
  reference exactly one wallet.
\<close>

lemma subscribe_wallets_on_wire:
  assumes "subscribe authNames subs cid' c = (None, c')"
  shows "\<exists>frames. wire c' = wire c @ frames \<and>
     (\<forall>f \<in> set frames. \<forall>s \<in> set (frameSubscriptions f).
        \<not> truthy (wallet s) \<or>
        (length (uniqueWallets authNames subs) \<noteq> 1 \<and> s \<in> set (publicSubscriptionsOf authNames subs)))"
proof -
  let ?W = "uniqueWallets authNames subs"
  have strip: "\<not> truthy (wallet (removeWalletFromSdkSubscription s))" for s :: "'a subscription"
    by (simp add: removeWalletFromSdkSubscription_def truthy_def)
  consider (zero) "?W = []" | (one) w where "?W = [w]" | (many) "2 \<le> length ?W"
    by (cases ?W rule: list.exhaust; cases "tl ?W") auto
  then show ?thesis
  proof cases
    case zero
    from subscribe_zero [OF zero assms]
    have A: "authSubscriptionsOf authNames subs = []"
      and z: "if subs = [] then c' = c
              else isConnected c \<and> c' = webSocketSend (subscribeFrame cid' subs None) c"
      by simp_all
    show ?thesis
    proof (cases "subs = []")
      case True
      then show ?thesis using z by simp
    next
      case False
      then have "wire c' = wire c @ [subscribeFrame cid' subs None]"
        using z wire_webSocketSend by auto
      then show ?thesis
        using zero publicSubscriptionsOf_all [OF A]
        by (auto simp: frameSubscriptions_def subscribeFrame_def)
    qed
  next
    case one
    from subscribe_single [OF one assms] obtain t where
      "wire c' = wire c @ [subscribeFrame cid' (map removeWalletFromSdkSubscription subs) (Some t)]"
      by blast
    then show ?thesis
      using strip by (auto simp: frameSubscriptions_def subscribeFrame_def)
  next
    case many
    from subscribe_many [OF many assms] obtain tm' where
      w: "wire c' = wire c @
       (if publicSubscriptionsOf authNames subs = [] then []
        else [subscribeFrame cid' (publicSubscriptionsOf authNames subs) None]) @
       map (\<lambda>a. subscribeFrame cid' [removeWalletFromSdkSubscription a]
                 (getLastCachedToken (wallet a) tm'))
           (authSubscriptionsOf authNames subs)"
      by blast
    define frames where "frames =
       (if publicSubscriptionsOf authNames subs = [] then []
        else [subscribeFrame cid' (publicSubscriptionsOf authNames subs) None]) @
       map (\<lambda>a. subscribeFrame cid' [removeWalletFromSdkSubscription a]
                 (getLastCachedToken (wallet a) tm'))
           (authSubscriptionsOf authNames subs)"
    have "wire c' = wire c @ frames" using w by (simp add: frames_def)
    moreover have "\<forall>f \<in> set frames. \<forall>s \<in> set (frameSubscriptions f).
        \<not> truthy (wallet s) \<or>
        (length ?W \<noteq> 1 \<and> s \<in> set (publicSubscriptionsOf authNames subs))"
      using many strip by (auto simp: frames_def frameSubscriptions_def subscribeFrame_def)
    ultimately show ?thesis by blast
  qed
qed

text \<open>
  C1. The claim is that no subscription is written with its wallet field. Four calls
  on the connected example session, each of which completes:
  \<^item> \<^verbatim>\<open>orders\<close> of wallet \<^verbatim>\<open>0xA\<close> and \<^verbatim>\<open>balances\<close> with the empty string as its wallet:
    one frame, in which \<^verbatim>\<open>balances\<close> still has its wallet field;
  \<^item> the public \<^verbatim>\<open>tickers\<close> given with the wallet \<^verbatim>\<open>0xA\<close>, alone: one frame, in which
    it has its wallet;
  \<^item> the same \<^verbatim>\<open>tickers\<close> next to \<^verbatim>\<open>orders\<close> of wallet \<^verbatim>\<open>0xA\<close>: one frame, and
    neither has a wallet;
  \<^item> the same \<^verbatim>\<open>tickers\<close> next to \<^verbatim>\<open>orders\<close> of wallet \<^verbatim>\<open>0xA\<close> and \<^verbatim>\<open>balances\<close> of
    wallet \<^verbatim>\<open>0xB\<close>: three frames, and \<^verbatim>\<open>tickers\<close> has its wallet in the first.

  \<^verbatim>\<open>removeWalletFromSdkSubscription\<close> deletes the wallet when it is truthy and not
  when it is present, and \<^verbatim>\<open>subscribe\<close> passes the public subscriptions through it
  on the route of one wallet and on no other.
\<close>

theorem wallet_left_on_wire:
  "fst (subscribe exampleAuthNames
       [sub ''orders'' (Some ''0xA''), sub ''balances'' (Some '''')] None connectedClient) = None \<and>
   walletsOnWire (snd (subscribe exampleAuthNames
       [sub ''orders'' (Some ''0xA''), sub ''balances'' (Some '''')] None connectedClient)) =
     [[None, Some '''']] \<and>
   fst (subscribe exampleAuthNames [sub ''tickers'' (Some ''0xA'')] None connectedClient) = None \<and>
   walletsOnWire (snd (subscribe exampleAuthNames [sub ''tickers'' (Some ''0xA'')] None
       connectedClient)) = [[Some ''0xA'']] \<and>
   fst (subscribe exampleAuthNames
       [sub ''tickers'' (Some ''0xA''), sub ''orders'' (Some ''0xA'')] None connectedClient) = None \<and>
   walletsOnWire (snd (subscribe exampleAuthNames
       [sub ''tickers'' (Some ''0xA''), sub ''orders'' (Some ''0xA'')] None connectedClient)) =
     [[None, None]] \<and>
   fst (subscribe exampleAuthNames
       [sub ''tickers'' (Some ''0xA''), sub ''orders'' (Some ''0xA''), sub ''balances'' (Some ''0xB'')]
       None connectedClient) = None \<and>
   walletsOnWire (snd (subscribe exampleAuthNames
       [sub ''tickers'' (Some ''0xA''), sub ''orders'' (Some ''0xA''), sub ''balances'' (Some ''0xB'')]
       None connectedClient)) = [[Some ''0xA''], [None], [None]]"
  by (simp add: eval_defs Let_def)

subsection \<open>Failures\<close>

lemma webSocketTokenManager_sendMessage:
  "webSocketTokenManager (snd (sendMessage p c)) = webSocketTokenManager c"
  by (simp add: sendMessage_def)

lemma webSocketTokenManager_sendEachAuth:
  "webSocketTokenManager (snd (sendEachAuth cid' as c)) = webSocketTokenManager c"
proof (induction as arbitrary: c)
  case Nil
  then show ?case by simp
next
  case (Cons a as)
  show ?case
  proof (cases "webSocketTokenManager c")
    case None
    then show ?thesis by simp
  next
    case (Some tm)
    let ?p = "subscribeFrame cid' [removeWalletFromSdkSubscription a] (getLastCachedToken (wallet a) tm)"
    show ?thesis
      using Some Cons [of "snd (sendMessage ?p c)"] webSocketTokenManager_sendMessage [of ?p c]
      by (cases "sendMessage ?p c"; cases "fst (sendMessage ?p c)") auto
  qed
qed

lemma webSocketTokenManager_sendMessage_eq:
  "sendMessage p c = (r, c2) \<Longrightarrow> webSocketTokenManager c2 = webSocketTokenManager c"
  using webSocketTokenManager_sendMessage [of p c] by simp

lemma subscribe_without_tokenManager:
  assumes "webSocketTokenManager c = None"
  shows "webSocketTokenManager (snd (subscribe authNames subs cid' c)) = None"
proof (cases "authSubscriptionsOf authNames subs = []")
  case False
  then show ?thesis using assms by (simp add: subscribe_MissingTokenFetch)
next
  case True
  then have W: "uniqueWallets authNames subs = []"
    by (simp add: uniqueWallets_Nil_iff)
  show ?thesis
    using assms True W
    by (auto simp: subscribe_def Let_def prepareTokens_Nil webSocketTokenManager_sendEachAuth
        split: option.splits prod.splits dest: webSocketTokenManager_sendMessage_eq)
qed

lemma webSocketTokenManager_None_step:
  "webSocketTokenManager c = None \<Longrightarrow> webSocketTokenManager (step authNames a c) = None"
  by (cases a)
    (auto simp: connect_def createWebSocket_def waitForOpen_def connectResolved_def fire_def
      resetReconnectionState_def pollWaitForOpen_def disconnect_def destroyWebSocket_def
      listSubscriptions_def unsubscribe_def webSocketTokenManager_sendMessage transportOpen_def
      transportClose_def handleWebSocketClose_def reconnect_def Let_def
      handleWebSocketError_def handleWebSocketMessage_def
      subscribeAuthenticated_def subscribeUnauthenticated_def subscribe_without_tokenManager
      split: option.splits eventData.splits)

lemma webSocketTokenManager_None_run:
  "webSocketTokenManager c = None \<Longrightarrow> webSocketTokenManager (run authNames as c) = None"
  by (induction as arbitrary: c) (simp_all add: webSocketTokenManager_None_step)

lemma constructed_without_fetch:
  assumes "newWebSocketClient sandboxURL opts = Inr c0"
    and "optWebsocketAuthTokenFetch opts = None"
  shows "webSocketTokenManager (run authNames as c0) = None"
proof -
  have "webSocketTokenManager c0 = None"
    using assms by (auto simp: newWebSocketClient_def Let_def split: if_splits)
  then show ?thesis by (rule webSocketTokenManager_None_run)
qed

text \<open>
  C6. Whenever the input has an authenticated subscription and either the client has
  no token manager (it was constructed without \<^verbatim>\<open>websocketAuthTokenFetch\<close>, see
  \<open>constructed_without_fetch\<close>) or no authenticated subscription has a truthy wallet,
  \<^verbatim>\<open>subscribe\<close> fails with a configuration error and the session is as it was: no
  frame has been written and no token fetched. This holds connected or not.
\<close>

theorem subscribe_configuration_error:
  assumes "authSubscriptionsOf authNames subs \<noteq> []"
    and "webSocketTokenManager c = None \<or>
         (\<forall>s \<in> set (authSubscriptionsOf authNames subs). \<not> truthy (wallet s))"
  shows "\<exists>e. isConfigurationError e \<and> subscribe authNames subs cid' c = (Some e, c)"
proof (cases "webSocketTokenManager c = None")
  case True
  then show ?thesis
    using subscribe_MissingTokenFetch [OF assms(1)] by (auto simp: isConfigurationError_def)
next
  case False
  then have "uniqueWallets authNames subs = []"
    using assms(2) by (auto simp: uniqueWallets_Nil_iff)
  then show ?thesis
    using subscribe_MissingWallet [OF assms(1) False] by (auto simp: isConfigurationError_def)
qed

theorem subscribe_configuration_error_witness:
  "authSubscriptionsOf exampleAuthNames [sub ''tickers'' None, sub ''orders'' None] \<noteq> [] \<and>
   isConnected connectedClient \<and>
   (\<exists>e. isConfigurationError e \<and>
      subscribe exampleAuthNames [sub ''tickers'' None, sub ''orders'' None] None connectedClient =
        (Some e, connectedClient)) \<and>
   authSubscriptionsOf exampleAuthNames [sub ''orders'' (Some ''0xA'')] \<noteq> [] \<and>
   webSocketTokenManager publicOnlyClient = None \<and>
   isConnected publicOnlyClient \<and>
   (\<exists>e. isConfigurationError e \<and>
      subscribe exampleAuthNames [sub ''orders'' (Some ''0xA'')] None publicOnlyClient =
        (Some e, publicOnlyClient))"
proof -
  have a1: "authSubscriptionsOf exampleAuthNames [sub ''tickers'' None, sub ''orders'' None] \<noteq> []"
    by (simp add: eval_defs)
  have b1: "webSocketTokenManager connectedClient = None \<or>
      (\<forall>s \<in> set (authSubscriptionsOf exampleAuthNames [sub ''tickers'' None, sub ''orders'' None]).
         \<not> truthy (wallet s))"
    by (simp add: eval_defs)
  have a2: "authSubscriptionsOf exampleAuthNames [sub ''orders'' (Some ''0xA'')] \<noteq> []"
    by (simp add: eval_defs)
  have n: "webSocketTokenManager publicOnlyClient = None"
    by (simp add: publicOnlyClient_def)
  have c: "isConnected connectedClient" "isConnected publicOnlyClient"
    by (simp_all add: eval_defs publicOnlyClient_def)
  show ?thesis
    using a1 a2 n c
      subscribe_configuration_error [OF a1 b1, of None]
      subscribe_configuration_error [OF a2 disjI1 [OF n], of None]
    by blast
qed

lemma sendEachAuth_disconnected_snd:
  "\<not> isConnected c \<Longrightarrow> snd (sendEachAuth cid' as c) = c"
  by (cases as; cases "webSocketTokenManager c") (simp_all add: sendMessage_disconnected)

lemma subscribe_disconnected_sockets:
  assumes "\<not> isConnected c"
  shows "sockets (snd (subscribe authNames subs cid' c)) = sockets c"
proof -
  let ?W = "uniqueWallets authNames subs"
  obtain r c1 where p: "prepareTokens ?W c = (r, c1)" by (cases "prepareTokens ?W c")
  have n: "\<not> isConnected c1" and s: "sockets c1 = sockets c"
    using assms p onlySent_isConnected [OF onlySent_prepareTokens, of ?W c]
      sockets_prepareTokens [of ?W c]
    by simp_all
  show ?thesis
    using p n s
    by (auto simp: subscribe_def Let_def sendMessage_disconnected sendEachAuth_disconnected_snd
        split: option.splits)
qed

text \<open>
  C5. On a session that is not connected, \<^verbatim>\<open>sendMessage\<close> fails with the
  not-connected error and leaves the session unchanged, so the frame is kept nowhere
  for a later delivery; \<^verbatim>\<open>listSubscriptions\<close> and \<^verbatim>\<open>unsubscribe\<close> are one
  \<^verbatim>\<open>sendMessage\<close> each and fail alike; \<^verbatim>\<open>subscribe\<close> fails with the same error
  whenever it gets as far as a send, and whatever it does, it writes nothing to any
  transport.
\<close>

theorem send_requires_connection:
  assumes "\<not> isConnected c"
  shows "sendMessage payload c = (Some NotConnectedError, c) \<and>
     listSubscriptions c = (Some NotConnectedError, c) \<and>
     unsubscribe subs c = (Some NotConnectedError, c) \<and>
     (reachesSend authNames subs' c \<longrightarrow>
        fst (subscribe authNames subs' cid' c) = Some NotConnectedError) \<and>
     sockets (snd (subscribe authNames subs' cid' c)) = sockets c"
proof (intro conjI impI)
  show "sendMessage payload c = (Some NotConnectedError, c)"
    using assms by (rule sendMessage_disconnected)
  show "listSubscriptions c = (Some NotConnectedError, c)"
    using assms by (simp add: listSubscriptions_def sendMessage_disconnected)
  show "unsubscribe subs c = (Some NotConnectedError, c)"
    using assms by (simp add: unsubscribe_def sendMessage_disconnected)
  show "sockets (snd (subscribe authNames subs' cid' c)) = sockets c"
    using assms by (rule subscribe_disconnected_sockets)
next
  assume rs: "reachesSend authNames subs' c"
  let ?W = "uniqueWallets authNames subs'"
  let ?A = "authSubscriptionsOf authNames subs'"
  let ?P = "publicSubscriptionsOf authNames subs'"
  show "fst (subscribe authNames subs' cid' c) = Some NotConnectedError"
  proof (cases "?A = []")
    case True
    then have W: "?W = []" by (simp add: uniqueWallets_Nil_iff)
    have P: "?P \<noteq> []" using rs publicSubscriptionsOf_all [OF True] by (simp add: reachesSend_def)
    show ?thesis
      using subscribe_not_one [of authNames subs' c cid'] W True P assms
      by (simp add: prepareTokens_Nil sendMessage_disconnected)
  next
    case False
    then obtain tm where tm: "webSocketTokenManager c = Some tm" "?W \<noteq> []"
        "fst (getTokens ?W tm) = None"
      using rs by (auto simp: reachesSend_def split: option.splits)
    define c1 where "c1 = c\<lparr>webSocketTokenManager := Some (snd (getTokens ?W tm))\<rparr>"
    have p: "prepareTokens ?W c = (None, c1)"
      using tm by (cases "getTokens ?W tm") (simp add: prepareTokens_def c1_def)
    have n: "\<not> isConnected c1"
      using assms by (simp add: c1_def isConnected_def split: option.splits)
    have t1: "webSocketTokenManager c1 = Some (snd (getTokens ?W tm))"
      by (simp add: c1_def)
    show ?thesis
    proof (cases "length ?W = 1")
      case True
      then obtain w where w: "?W = [w]" by (cases ?W) auto
      show ?thesis
        using subscribe_one [OF w, of c cid'] tm(1) p n t1 w
        by (simp add: sendMessage_disconnected)
    next
      case one: False
      show ?thesis
      proof (cases "?P = []")
        case True
        then show ?thesis
          using subscribe_not_one [OF one, of c cid'] tm(1,2) p
            sendEachAuth_disconnected [OF n t1 False, of cid']
          by simp
      next
        case False
        then show ?thesis
          using subscribe_not_one [OF one, of c cid'] tm(1,2) p n
          by (simp add: sendMessage_disconnected)
      qed
    qed
  qed
qed

theorem send_requires_connection_witness:
  "\<not> isConnected freshClient \<and>
   reachesSend exampleAuthNames [sub ''tickers'' None, sub ''orders'' (Some ''0xA'')] freshClient \<and>
   listSubscriptions freshClient = (Some NotConnectedError, freshClient) \<and>
   unsubscribe [sub ''tickers'' None] freshClient = (Some NotConnectedError, freshClient) \<and>
   fst (subscribe exampleAuthNames [sub ''tickers'' None, sub ''orders'' (Some ''0xA'')]
          None freshClient) = Some NotConnectedError \<and>
   sockets (snd (subscribe exampleAuthNames [sub ''tickers'' None, sub ''orders'' (Some ''0xA'')]
          None freshClient)) = sockets freshClient"
proof -
  have h: "\<not> isConnected freshClient"
    by (simp add: eval_defs)
  have r: "reachesSend exampleAuthNames [sub ''tickers'' None, sub ''orders'' (Some ''0xA'')] freshClient"
    by (simp add: reachesSend_def eval_defs)
  show ?thesis
    using h r send_requires_connection [OF h, of _ "[sub ''tickers'' None]" exampleAuthNames
        "[sub ''tickers'' None, sub ''orders'' (Some ''0xA'')]" None]
    by blast
qed

subsection \<open>Reconnection\<close>

lemma onlySent_subscribe: "onlySent c (snd (subscribe authNames subs cid' c))"
proof -
  let ?W = "uniqueWallets authNames subs"
  obtain r c1 where p: "prepareTokens ?W c = (r, c1)" by (cases "prepareTokens ?W c")
  have o1: "onlySent c c1"
    using onlySent_prepareTokens [of c ?W] p by simp
  have m: "onlySent c c2" if "sendMessage q c1 = (x, c2)" for q x c2
    using onlySent_trans [OF o1 onlySent_sendMessage [of c1 q]] that by simp
  have e: "onlySent c (snd (sendEachAuth cid' as c2))" if "onlySent c c2" for as c2
    using onlySent_trans [OF that onlySent_sendEachAuth] .
  have m2: "onlySent c (snd (sendMessage q c1))" for q
    using onlySent_trans [OF o1 onlySent_sendMessage [of c1 q]] .
  show ?thesis
    using p o1 m m2 e
    by (auto simp: subscribe_def Let_def onlySent_refl split: option.splits prod.splits)
qed

lemma timers_sendMessage:
  "timers (snd (sendMessage p c)) = timers c"
  "reconnectAttempt (snd (sendMessage p c)) = reconnectAttempt c"
  using onlySent_sendMessage [of c p] by (simp_all add: onlySent_def)

lemma timers_subscribe:
  "timers (snd (subscribe authNames subs cid' c)) = timers c"
  "reconnectAttempt (snd (subscribe authNames subs cid' c)) = reconnectAttempt c"
  using onlySent_subscribe [of c authNames subs cid'] by (simp_all add: onlySent_def)

lemma run_append: "run authNames (as @ bs) c = run authNames bs (run authNames as c)"
  by (induction as arbitrary: c) simp_all

lemma failedReconnects_add:
  "failedReconnects h (j + k) = failedReconnects h j @ failedReconnects (h + j) k"
  by (induction j arbitrary: h) simp_all

text \<open>One reconnect that fails, and a row of them.\<close>

lemma failed_reconnect:
  assumes "shouldReconnectAutomatically c" and "webSocket c = None"
  shows "shouldReconnectAutomatically (run authNames [Connect, TransportClose (length (sockets c))] c) \<and>
     webSocket (run authNames [Connect, TransportClose (length (sockets c))] c) = None \<and>
     length (sockets (run authNames [Connect, TransportClose (length (sockets c))] c)) =
       Suc (length (sockets c)) \<and>
     reconnectAttempt (run authNames [Connect, TransportClose (length (sockets c))] c) =
       plusOne (reconnectAttempt c) \<and>
     timers (run authNames [Connect, TransportClose (length (sockets c))] c) =
       timers c @ [timesThousand (backoffSeconds c)]"
  using assms
  by (simp add: lifecycle_defs reconnect_def backoffSeconds_def Let_def nth_append)

lemma failedReconnects_run:
  assumes "shouldReconnectAutomatically c" and "webSocket c = None"
    and "reconnectAttempt c + k \<le> 1015"
  shows "shouldReconnectAutomatically (run authNames (failedReconnects (length (sockets c)) k) c) \<and>
     webSocket (run authNames (failedReconnects (length (sockets c)) k) c) = None \<and>
     length (sockets (run authNames (failedReconnects (length (sockets c)) k) c)) =
       length (sockets c) + k \<and>
     reconnectAttempt (run authNames (failedReconnects (length (sockets c)) k) c) =
       reconnectAttempt c + k \<and>
     timers (run authNames (failedReconnects (length (sockets c)) k) c) =
       timers c @ map (\<lambda>i. enat (2 ^ (reconnectAttempt c + i) * 1000)) [0..<k]"
  using assms
proof (induction k arbitrary: c)
  case 0
  then show ?case by simp
next
  case (Suc k)
  let ?h = "length (sockets c)"
  let ?c1 = "run authNames [Connect, TransportClose ?h] c"
  have small: "reconnectAttempt c \<le> 1014" using Suc.prems(3) by simp
  from failed_reconnect [OF Suc.prems(1,2), of authNames]
  have c1: "shouldReconnectAutomatically ?c1" "webSocket ?c1 = None"
      "length (sockets ?c1) = Suc ?h"
      "reconnectAttempt ?c1 = reconnectAttempt c + 1"
      "timers ?c1 = timers c @ [enat (2 ^ reconnectAttempt c * 1000)]"
    by (simp_all only: plusOne_small [OF small] delay_finite [OF small])
  have le: "reconnectAttempt ?c1 + k \<le> 1015" using Suc.prems(3) c1(4) by simp
  have e: "run authNames (failedReconnects ?h (Suc k)) c =
      run authNames (failedReconnects (length (sockets ?c1)) k) ?c1"
    unfolding c1(3) by simp
  show ?case
    unfolding e
    using Suc.IH [OF c1(1,2) le]
    by (simp only: c1 map_upt_Suc) simp
qed

lemma successful_connect:
  assumes "webSocket c = None"
  shows "reconnectAttempt (run authNames
           [Connect, TransportOpen (length (sockets c)), PollWaitForOpen (length (sockets c))] c) = 0 \<and>
     isConnected (run authNames
           [Connect, TransportOpen (length (sockets c)), PollWaitForOpen (length (sockets c))] c)"
  using assms by (simp add: lifecycle_defs nth_append)

lemma connect_keeps_attempt: "reconnectAttempt (connect c) = reconnectAttempt c"
  by (auto simp: connect_def createWebSocket_def waitForOpen_def isConnected_def
      connectResolved_def fire_def resetReconnectionState_def nth_append split: option.splits)

lemma poll_not_open:
  "\<not> (h < length (sockets c) \<and> readyState (sockets c ! h) = OPEN) \<Longrightarrow>
   reconnectAttempt (pollWaitForOpen h c) = reconnectAttempt c"
  by (auto simp: pollWaitForOpen_def waitForOpen_def)

lemma poll_open:
  "h \<in> set (waiting c) \<Longrightarrow> h < length (sockets c) \<Longrightarrow> readyState (sockets c ! h) = OPEN \<Longrightarrow>
   reconnectAttempt (pollWaitForOpen h c) = 0 \<and>
   notified (pollWaitForOpen h c) = notified c @ [ConnectListeners]"
  by (simp add: pollWaitForOpen_def waitForOpen_def connectResolved_def fire_def
      resetReconnectionState_def)

lemma close_then_failedReconnects:
  assumes "h < length (sockets c)" and "readyState (sockets c ! h) \<noteq> CLOSED"
    and "onclose (sockets c ! h)" and "shouldReconnectAutomatically c"
    and "reconnectAttempt c + k \<le> 1014"
  shows "timers (run authNames (TransportClose h # failedReconnects (length (sockets c)) k) c) =
       timers c @ map (\<lambda>i. enat (2 ^ (reconnectAttempt c + i) * 1000)) [0..<Suc k] \<and>
     reconnectAttempt (run authNames (TransportClose h # failedReconnects (length (sockets c)) k) c) =
       reconnectAttempt c + Suc k"
proof -
  let ?c1 = "step authNames (TransportClose h) c"
  have small: "reconnectAttempt c \<le> 1014" using assms(5) by simp
  have c1: "shouldReconnectAutomatically ?c1" "webSocket ?c1 = None"
      "length (sockets ?c1) = length (sockets c)"
      "reconnectAttempt ?c1 = reconnectAttempt c + 1"
      "timers ?c1 = timers c @ [enat (2 ^ reconnectAttempt c * 1000)]"
    using assms(1-4) small
    by (simp_all add: transportClose_def handleWebSocketClose_def fire_def Let_def reconnect_small)
  have le: "reconnectAttempt ?c1 + k \<le> 1015" using assms(5) c1(4) by simp
  have e: "run authNames (TransportClose h # failedReconnects (length (sockets c)) k) c =
      run authNames (failedReconnects (length (sockets ?c1)) k) ?c1"
    unfolding c1(3) by simp
  show ?thesis
    unfolding e
    using failedReconnects_run [OF c1(1,2) le, of authNames]
    by (simp only: c1 map_upt_Suc) simp
qed

lemma attempt_step:
  assumes "reconnectAttempt (step authNames a c) \<noteq> reconnectAttempt c"
  shows "(\<exists>h. a = PollWaitForOpen h \<and> h \<in> set (waiting c) \<and> h < length (sockets c) \<and>
            readyState (sockets c ! h) = OPEN \<and> reconnectAttempt (step authNames a c) = 0) \<or>
     (\<exists>h. a = TransportClose h \<and> h < length (sockets c) \<and> readyState (sockets c ! h) \<noteq> CLOSED \<and>
            onclose (sockets c ! h) \<and> shouldReconnectAutomatically c \<and>
            timers (step authNames a c) = timers c @ [timesThousand (backoffSeconds c)] \<and>
            reconnectAttempt (step authNames a c) = reconnectAttempt c + 1)"
proof (cases a)
  case Connect
  then show ?thesis using assms by (simp add: connect_keeps_attempt)
next
  case (PollWaitForOpen h)
  then show ?thesis
    using assms
    by (auto simp: pollWaitForOpen_def waitForOpen_def connectResolved_def fire_def
        resetReconnectionState_def split: if_splits)
next
  case Disconnect
  then show ?thesis
    using assms by (auto simp: disconnect_def destroyWebSocket_def fire_def split: option.splits)
next
  case ListSubscriptions
  then show ?thesis using assms by (simp add: listSubscriptions_def timers_sendMessage)
next
  case (Subscribe subs cid')
  then show ?thesis using assms by (simp add: timers_subscribe)
next
  case (SubscribeAuthenticated subs)
  then show ?thesis using assms by (simp add: subscribeAuthenticated_def timers_subscribe)
next
  case (SubscribeUnauthenticated subs)
  then show ?thesis using assms by (simp add: subscribeUnauthenticated_def timers_subscribe)
next
  case (Unsubscribe subs)
  then show ?thesis using assms by (simp add: unsubscribe_def timers_sendMessage)
next
  case (TransportOpen h)
  then show ?thesis using assms by (auto simp: transportOpen_def split: if_splits)
next
  case (TransportClose h)
  then show ?thesis
    using assms plusOne_changed [of "reconnectAttempt c"]
    by (auto simp: transportClose_def handleWebSocketClose_def reconnect_def backoffSeconds_def
        fire_def Let_def split: if_splits)
next
  case (TransportError h)
  then show ?thesis using assms by (auto simp: handleWebSocketError_def fire_def split: if_splits)
next
  case (TransportMessage h data)
  then show ?thesis
    using assms
    by (auto simp: handleWebSocketMessage_def fire_def split: if_splits eventData.splits)
qed

text \<open>
  C7, as amended. While the attempt is at most 1014:
  \<^item> \<^verbatim>\<open>reconnect\<close> asks for a delay of \<open>2 ^ reconnectAttempt\<close> seconds and adds one to
    the attempt;
  \<^item> the close of a transport that holds the client's handler, with the policy on,
    followed by \<open>k\<close> reconnects that fail (the timer fires, \<^verbatim>\<open>connect\<close> creates a
    transport, the transport closes before it has opened) asks for the delays
    \<open>2 ^ n\<close>, \<open>2 ^ (n + 1)\<close>, ..., \<open>2 ^ (n + k)\<close> seconds, from the attempt \<open>n\<close> that the
    first close found, and leaves the attempt at \<open>n + k + 1\<close>.

  In every state:
  \<^item> a \<^verbatim>\<open>connect\<close> on a client without a transport, whose transport opens, ends at
    the next poll with the session connected and the attempt at zero;
  \<^item> the poll at which a pending \<^verbatim>\<open>connect\<close> finds its transport open sets the attempt
    to zero and calls the connect listeners;
  \<^item> the call of \<^verbatim>\<open>connect\<close> itself, up to its first wait, leaves the attempt as it
    is, and so does a poll that does not find the transport open: a \<^verbatim>\<open>connect\<close> that
    has not succeeded resets nothing;
  \<^item> a step that changes the attempt is one of the two: the poll of a pending
    \<^verbatim>\<open>connect\<close> that finds its transport open, which sets it to zero, or the close of
    a transport that holds the handler, with the policy on, which adds one and asks
    for the delay that \<^verbatim>\<open>reconnect\<close> computes.

  (\<^verbatim>\<open>connect\<close> on a session that is connected already returns at its guard and
  changes nothing, see \<open>connect_at_guard\<close> below.)
\<close>

theorem reconnect_backoff:
  "(reconnectAttempt c \<le> 1014 \<longrightarrow>
      timers (reconnect c) = timers c @ [enat (2 ^ reconnectAttempt c * 1000)] \<and>
      reconnectAttempt (reconnect c) = reconnectAttempt c + 1) \<and>
   (h < length (sockets c) \<and> readyState (sockets c ! h) \<noteq> CLOSED \<and> onclose (sockets c ! h) \<and>
    shouldReconnectAutomatically c \<and> reconnectAttempt c + k \<le> 1014 \<longrightarrow>
      timers (run authNames (TransportClose h # failedReconnects (length (sockets c)) k) c) =
        timers c @ map (\<lambda>i. enat (2 ^ (reconnectAttempt c + i) * 1000)) [0..<Suc k] \<and>
      reconnectAttempt (run authNames (TransportClose h # failedReconnects (length (sockets c)) k) c) =
        reconnectAttempt c + Suc k) \<and>
   (webSocket c = None \<longrightarrow>
      isConnected (run authNames
        [Connect, TransportOpen (length (sockets c)), PollWaitForOpen (length (sockets c))] c) \<and>
      reconnectAttempt (run authNames
        [Connect, TransportOpen (length (sockets c)), PollWaitForOpen (length (sockets c))] c) = 0) \<and>
   (h \<in> set (waiting c) \<and> h < length (sockets c) \<and> readyState (sockets c ! h) = OPEN \<longrightarrow>
      reconnectAttempt (pollWaitForOpen h c) = 0 \<and>
      notified (pollWaitForOpen h c) = notified c @ [ConnectListeners]) \<and>
   reconnectAttempt (connect c) = reconnectAttempt c \<and>
   (\<not> (h < length (sockets c) \<and> readyState (sockets c ! h) = OPEN) \<longrightarrow>
      reconnectAttempt (pollWaitForOpen h c) = reconnectAttempt c) \<and>
   (reconnectAttempt (step authNames a c) \<noteq> reconnectAttempt c \<longrightarrow>
      (\<exists>h. a = PollWaitForOpen h \<and> h \<in> set (waiting c) \<and> h < length (sockets c) \<and>
            readyState (sockets c ! h) = OPEN \<and> reconnectAttempt (step authNames a c) = 0) \<or>
      (\<exists>h. a = TransportClose h \<and> h < length (sockets c) \<and> readyState (sockets c ! h) \<noteq> CLOSED \<and>
            onclose (sockets c ! h) \<and> shouldReconnectAutomatically c \<and>
            timers (step authNames a c) = timers c @ [timesThousand (backoffSeconds c)] \<and>
            reconnectAttempt (step authNames a c) = reconnectAttempt c + 1))"
proof (intro conjI impI)
  show "timers (reconnect c) = timers c @ [enat (2 ^ reconnectAttempt c * 1000)]"
    and "reconnectAttempt (reconnect c) = reconnectAttempt c + 1"
    if "reconnectAttempt c \<le> 1014"
    using that by (simp_all add: reconnect_small)
  show "timers (run authNames (TransportClose h # failedReconnects (length (sockets c)) k) c) =
        timers c @ map (\<lambda>i. enat (2 ^ (reconnectAttempt c + i) * 1000)) [0..<Suc k]"
    and "reconnectAttempt (run authNames (TransportClose h # failedReconnects (length (sockets c)) k) c) =
        reconnectAttempt c + Suc k"
    if "h < length (sockets c) \<and> readyState (sockets c ! h) \<noteq> CLOSED \<and> onclose (sockets c ! h) \<and>
        shouldReconnectAutomatically c \<and> reconnectAttempt c + k \<le> 1014"
    using close_then_failedReconnects [of h c k authNames] that by blast+
  show "isConnected (run authNames
        [Connect, TransportOpen (length (sockets c)), PollWaitForOpen (length (sockets c))] c)"
    and "reconnectAttempt (run authNames
        [Connect, TransportOpen (length (sockets c)), PollWaitForOpen (length (sockets c))] c) = 0"
    if "webSocket c = None"
    using successful_connect [OF that, of authNames] by blast+
  show "reconnectAttempt (pollWaitForOpen h c) = 0"
    and "notified (pollWaitForOpen h c) = notified c @ [ConnectListeners]"
    if "h \<in> set (waiting c) \<and> h < length (sockets c) \<and> readyState (sockets c ! h) = OPEN"
    using poll_open [of h c] that by blast+
  show "reconnectAttempt (connect c) = reconnectAttempt c"
    by (rule connect_keeps_attempt)
  show "reconnectAttempt (pollWaitForOpen h c) = reconnectAttempt c"
    if "\<not> (h < length (sockets c) \<and> readyState (sockets c ! h) = OPEN)"
    using that by (rule poll_not_open)
  show "(\<exists>h. a = PollWaitForOpen h \<and> h \<in> set (waiting c) \<and> h < length (sockets c) \<and>
            readyState (sockets c ! h) = OPEN \<and> reconnectAttempt (step authNames a c) = 0) \<or>
      (\<exists>h. a = TransportClose h \<and> h < length (sockets c) \<and> readyState (sockets c ! h) \<noteq> CLOSED \<and>
            onclose (sockets c ! h) \<and> shouldReconnectAutomatically c \<and>
            timers (step authNames a c) = timers c @ [timesThousand (backoffSeconds c)] \<and>
            reconnectAttempt (step authNames a c) = reconnectAttempt c + 1)"
    if "reconnectAttempt (step authNames a c) \<noteq> reconnectAttempt c"
    using that by (rule attempt_step)
qed

text \<open>
  The scenario of the specification: after a session, three closes in a row schedule
  reconnects after 1, 2 and 4 seconds; the connect that succeeds resets the attempt,
  and the next close schedules a reconnect after 1 second again.
\<close>

lemma reconnect_scenario:
  "timers (run exampleAuthNames
      [Connect, TransportOpen 0, PollWaitForOpen 0, TransportClose 0,
       Connect, TransportClose 1, Connect, TransportClose 2] freshClient) = [1000, 2000, 4000] \<and>
   reconnectAttempt (run exampleAuthNames
      [Connect, TransportOpen 0, PollWaitForOpen 0, TransportClose 0,
       Connect, TransportClose 1, Connect, TransportClose 2] freshClient) = 3 \<and>
   reconnectAttempt (run exampleAuthNames
      [Connect, TransportOpen 0, PollWaitForOpen 0, TransportClose 0,
       Connect, TransportClose 1, Connect, TransportClose 2,
       Connect, TransportOpen 3, PollWaitForOpen 3] freshClient) = 0 \<and>
   timers (run exampleAuthNames
      [Connect, TransportOpen 0, PollWaitForOpen 0, TransportClose 0,
       Connect, TransportClose 1, Connect, TransportClose 2,
       Connect, TransportOpen 3, PollWaitForOpen 3, TransportClose 3] freshClient) =
     [1000, 2000, 4000, 1000]"
  by (simp add: freshClient_def lifecycle_defs reconnect_small numeral_eq_enat Let_def)

theorem reconnect_backoff_witness:
  "timers (run exampleAuthNames [TransportClose 0, Connect, TransportClose 1, Connect, TransportClose 2]
      connectedClient) = [1000, 2000, 4000] \<and>
   reconnectAttempt (run exampleAuthNames
      [TransportClose 0, Connect, TransportClose 1, Connect, TransportClose 2] connectedClient) = 3 \<and>
   isConnected (run exampleAuthNames [Connect, TransportOpen 0, PollWaitForOpen 0] freshClient) \<and>
   reconnectAttempt reopenedClient = 1 \<and>
   1 \<in> set (waiting reopenedClient) \<and>
   readyState (sockets reopenedClient ! 1) = OPEN \<and>
   reconnectAttempt (pollWaitForOpen 1 reopenedClient) = 0 \<and>
   readyState (sockets (run exampleAuthNames [TransportClose 0, Connect] connectedClient) ! 1) = CONNECTING \<and>
   reconnectAttempt (pollWaitForOpen 1
     (run exampleAuthNames [TransportClose 0, Connect] connectedClient)) = 1 \<and>
   reconnectAttempt (step exampleAuthNames (TransportClose 0) connectedClient) = 1 \<and>
   reconnectAttempt connectedClient = 0"
proof -
  let ?c2 = "run exampleAuthNames [TransportClose 0, Connect] connectedClient"
  have f: "TransportClose 0 # failedReconnects (length (sockets connectedClient)) 2 =
      ([TransportClose 0, Connect, TransportClose 1, Connect, TransportClose 2] :: unit action list)"
    by (simp add: connectedClient_def numeral_2_eq_2)
  have a: "0 < length (sockets connectedClient) \<and> readyState (sockets connectedClient ! 0) \<noteq> CLOSED \<and>
      onclose (sockets connectedClient ! 0) \<and> shouldReconnectAutomatically connectedClient \<and>
      reconnectAttempt connectedClient + 2 \<le> 1014"
    by (simp add: connectedClient_def)
  have t: "timers connectedClient @
      map (\<lambda>i. enat (2 ^ (reconnectAttempt connectedClient + i) * 1000)) [0..<Suc 2] =
      [1000, 2000, 4000]"
    by (simp add: connectedClient_def upt_rec numeral_eq_enat)
  have n: "webSocket freshClient = None" "length (sockets freshClient) = 0"
    by (simp_all add: freshClient_def)
  have w: "1 \<in> set (waiting reopenedClient) \<and> 1 < length (sockets reopenedClient) \<and>
      readyState (sockets reopenedClient ! 1) = OPEN"
    by (simp add: reopenedClient_def)
  have r: "reconnectAttempt reopenedClient = 1" "reconnectAttempt connectedClient = 0"
    by (simp_all add: reopenedClient_def connectedClient_def)
  have p: "readyState (sockets ?c2 ! 1) = CONNECTING" "reconnectAttempt ?c2 = 1"
    by (simp_all add: connectedClient_def lifecycle_defs reconnect_small Let_def)
  then have q: "\<not> (1 < length (sockets ?c2) \<and> readyState (sockets ?c2 ! 1) = OPEN)"
    by simp
  have s: "reconnectAttempt (step exampleAuthNames (TransportClose 0) connectedClient) = 1"
    by (simp add: connectedClient_def lifecycle_defs reconnect_small Let_def)
  show ?thesis
    using a t n w r p q s
      reconnect_backoff [of connectedClient 0 2 exampleAuthNames "TransportClose 0"]
      reconnect_backoff [of freshClient 0 0 exampleAuthNames Connect]
      reconnect_backoff [of reopenedClient 1 0 exampleAuthNames "PollWaitForOpen 1"]
      reconnect_backoff [of ?c2 1 0 exampleAuthNames Connect]
    unfolding f
    by simp
qed

text \<open>
  C7 as stated gives the delay \<open>2 ^ attempt\<close> seconds to every scheduled reconnect.
  On the fresh example client, 1015 reconnects that fail in a row leave the attempt at
  1015; the 1015th asked for \<open>2 ^ 1014 * 1000\<close> milliseconds, and the next one asks for
  \<^verbatim>\<open>Infinity\<close>: \<open>2 ^ 1015 * 1000\<close> is above the largest double.
\<close>

theorem reconnect_overflow_counterexample:
  "shouldReconnectAutomatically freshClient \<and>
   reconnectAttempt (run exampleAuthNames (failedReconnects 0 1015) freshClient) = 1015 \<and>
   length (timers (run exampleAuthNames (failedReconnects 0 1016) freshClient)) = 1016 \<and>
   timers (run exampleAuthNames (failedReconnects 0 1016) freshClient) ! 1014 = enat (2 ^ 1014 * 1000) \<and>
   timers (run exampleAuthNames (failedReconnects 0 1016) freshClient) ! 1015 = \<infinity>"
proof -
  let ?c = "run exampleAuthNames (failedReconnects 0 1015) freshClient"
  have f: "shouldReconnectAutomatically freshClient" "webSocket freshClient = None"
      "reconnectAttempt freshClient + 1015 \<le> 1015" "length (sockets freshClient) = 0"
      "timers freshClient = []" "reconnectAttempt freshClient = 0"
    by (simp_all add: freshClient_def)
  from failedReconnects_run [OF f(1,2,3), of exampleAuthNames]
  have c: "shouldReconnectAutomatically ?c" "webSocket ?c = None" "length (sockets ?c) = 1015"
      "reconnectAttempt ?c = 1015"
      "timers ?c = map (\<lambda>i. enat (2 ^ i * 1000)) [0..<1015]"
    unfolding f(4,5,6) by simp_all
  have s: "failedReconnects 0 1016 = failedReconnects 0 1015 @ [Connect, TransportClose 1015]"
    using failedReconnects_add [of 0 1015 "Suc 0"] by simp
  have i: "timesThousand (backoffSeconds ?c) = \<infinity>"
    by (rule delay_infinite) (simp only: c(4) order_refl)
  have t: "timers (run exampleAuthNames (failedReconnects 0 1016) freshClient) =
      map (\<lambda>i. enat (2 ^ i * 1000)) [0..<1015] @ [\<infinity>]"
    unfolding s run_append
    using failed_reconnect [OF c(1,2), of exampleAuthNames]
    by (simp only: c(3,5) i)
  show ?thesis
    unfolding t
    by (simp only: f(1) c(4) length_append length_map length_upt nth_append) simp
qed

text \<open>
  A \<^verbatim>\<open>connect\<close> that finds the session connected returns at its guard. In a state
  that a constructed client can reach, the attempt is zero then, unless the
  \<^verbatim>\<open>connect\<close> that created the transport is still polling it: that one resets the
  attempt at its next poll.
\<close>

lemma onlySent_pollingOrReset: "onlySent c c' \<Longrightarrow> pollingOrReset c \<Longrightarrow> pollingOrReset c'"
proof -
  assume a: "onlySent c c'" and i: "pollingOrReset c"
  from a have l: "length (sockets c') = length (sockets c)"
    unfolding onlySent_def by (metis length_map)
  have r: "h < length (sockets c) \<Longrightarrow> readyState (sockets c' ! h) = readyState (sockets c ! h)" for h
    using a l unfolding onlySent_def by (metis nth_map)
  have e: "webSocket c' = webSocket c" "waiting c' = waiting c" "reconnectAttempt c' = reconnectAttempt c"
    using a by (simp_all add: onlySent_def)
  show ?thesis
    using i l r unfolding pollingOrReset_def e by (auto split: option.splits)
qed

lemma remove1_keeps: "x \<in> set xs \<Longrightarrow> x \<notin> set (remove1 k xs) \<Longrightarrow> x = k"
  by (metis in_set_remove1)

lemma pollingOrReset_step: "pollingOrReset c \<Longrightarrow> pollingOrReset (step authNames a c)"
proof (cases a)
  case Connect
  assume "pollingOrReset c"
  then show ?thesis
    using Connect
    by (auto simp: pollingOrReset_def connect_def createWebSocket_def waitForOpen_def
        connectResolved_def fire_def resetReconnectionState_def isConnected_def nth_append
        split: option.splits if_splits)
next
  case (PollWaitForOpen k)
  assume "pollingOrReset c"
  then show ?thesis
    using PollWaitForOpen
    by (auto simp: pollingOrReset_def pollWaitForOpen_def waitForOpen_def connectResolved_def
        fire_def resetReconnectionState_def split: option.splits if_splits dest: remove1_keeps)
next
  case Disconnect
  assume "pollingOrReset c"
  then show ?thesis
    using Disconnect
    by (auto simp: pollingOrReset_def disconnect_def destroyWebSocket_def fire_def
        split: option.splits)
next
  case ListSubscriptions
  assume "pollingOrReset c"
  then show ?thesis
    using ListSubscriptions onlySent_pollingOrReset [OF onlySent_sendMessage]
    by (simp add: listSubscriptions_def)
next
  case (Subscribe subs cid')
  assume "pollingOrReset c"
  then show ?thesis
    using Subscribe onlySent_pollingOrReset [OF onlySent_subscribe] by simp
next
  case (SubscribeAuthenticated subs)
  assume "pollingOrReset c"
  then show ?thesis
    using SubscribeAuthenticated onlySent_pollingOrReset [OF onlySent_subscribe]
    by (simp add: subscribeAuthenticated_def)
next
  case (SubscribeUnauthenticated subs)
  assume "pollingOrReset c"
  then show ?thesis
    using SubscribeUnauthenticated onlySent_pollingOrReset [OF onlySent_subscribe]
    by (simp add: subscribeUnauthenticated_def)
next
  case (Unsubscribe subs)
  assume "pollingOrReset c"
  then show ?thesis
    using Unsubscribe onlySent_pollingOrReset [OF onlySent_sendMessage]
    by (simp add: unsubscribe_def)
next
  case (TransportOpen k)
  assume "pollingOrReset c"
  then show ?thesis
    using TransportOpen
    by (auto simp: pollingOrReset_def transportOpen_def nth_list_update split: option.splits if_splits)
next
  case (TransportClose k)
  assume "pollingOrReset c"
  then show ?thesis
    using TransportClose
    by (auto simp: pollingOrReset_def transportClose_def handleWebSocketClose_def reconnect_def
        fire_def Let_def nth_list_update split: option.splits if_splits)
next
  case (TransportError k)
  assume "pollingOrReset c"
  then show ?thesis
    using TransportError by (auto simp: pollingOrReset_def handleWebSocketError_def fire_def split: option.splits if_splits)
next
  case (TransportMessage k data)
  assume "pollingOrReset c"
  then show ?thesis
    using TransportMessage by (auto simp: pollingOrReset_def handleWebSocketMessage_def fire_def split: option.splits if_splits eventData.splits)
qed

lemma pollingOrReset_run: "pollingOrReset c \<Longrightarrow> pollingOrReset (run authNames as c)"
  by (induction as arbitrary: c) (simp_all add: pollingOrReset_step)

lemma connect_at_guard:
  assumes "newWebSocketClient sandboxURL opts = Inr c0"
    and "c = run authNames as c0"
    and "isConnected c"
  shows "connect c = c \<and>
     (reconnectAttempt c = 0 \<or>
      (\<exists>h. webSocket c = Some h \<and> h \<in> set (waiting c) \<and>
           reconnectAttempt (pollWaitForOpen h c) = 0))"
proof -
  have "pollingOrReset c0"
    using assms(1) by (auto simp: newWebSocketClient_def pollingOrReset_def Let_def split: if_splits)
  then have "pollingOrReset c"
    unfolding assms(2) by (rule pollingOrReset_run)
  then show ?thesis
    using assms(3)
    by (auto simp: pollingOrReset_def isConnected_def connect_def pollWaitForOpen_def
        waitForOpen_def connectResolved_def fire_def resetReconnectionState_def
        split: option.splits)
qed

lemma onlySent_detached: "onlySent c c' \<Longrightarrow> detached h c' = detached h c"
proof -
  assume a: "onlySent c c'"
  then have l: "length (sockets c') = length (sockets c)"
    unfolding onlySent_def by (metis length_map)
  have "h < length (sockets c) \<Longrightarrow> onclose (sockets c' ! h) = onclose (sockets c ! h)"
    using a l unfolding onlySent_def by (metis nth_map)
  then show ?thesis
    using l by (auto simp: detached_def)
qed

lemma detached_sendMessage: "detached h (snd (sendMessage p c)) = detached h c"
  using onlySent_sendMessage by (rule onlySent_detached)

lemma detached_subscribe: "detached h (snd (subscribe authNames subs cid' c)) = detached h c"
  using onlySent_subscribe by (rule onlySent_detached)

lemma detached_step: "detached h c \<Longrightarrow> detached h (step authNames a c)"
proof (cases a)
  case Connect
  assume "detached h c"
  then show ?thesis
    using Connect
    by (auto simp: detached_def connect_def createWebSocket_def waitForOpen_def connectResolved_def
        fire_def resetReconnectionState_def nth_append split: option.splits)
next
  case (PollWaitForOpen k)
  assume "detached h c"
  then show ?thesis
    using PollWaitForOpen
    by (auto simp: detached_def pollWaitForOpen_def waitForOpen_def connectResolved_def fire_def
        resetReconnectionState_def)
next
  case Disconnect
  assume d: "detached h c"
  show ?thesis
  proof (cases "webSocket c")
    case None
    then show ?thesis using d Disconnect by (simp add: disconnect_def)
  next
    case (Some k)
    show ?thesis
    proof (cases "k < length (sockets c)")
      case True
      then show ?thesis
        using d Disconnect Some
        by (auto simp: detached_def disconnect_def destroyWebSocket_def webSocketClose_def fire_def
            nth_list_update)
    next
      case False
      then show ?thesis
        using d Disconnect Some
        by (simp add: detached_def disconnect_def destroyWebSocket_def fire_def)
    qed
  qed
next
  case ListSubscriptions
  assume "detached h c"
  then show ?thesis
    using ListSubscriptions by (simp add: listSubscriptions_def detached_sendMessage)
next
  case (Subscribe subs cid')
  assume "detached h c"
  then show ?thesis
    using Subscribe by (simp add: detached_subscribe)
next
  case (SubscribeAuthenticated subs)
  assume "detached h c"
  then show ?thesis
    using SubscribeAuthenticated by (simp add: subscribeAuthenticated_def detached_subscribe)
next
  case (SubscribeUnauthenticated subs)
  assume "detached h c"
  then show ?thesis
    using SubscribeUnauthenticated by (simp add: subscribeUnauthenticated_def detached_subscribe)
next
  case (Unsubscribe subs)
  assume "detached h c"
  then show ?thesis
    using Unsubscribe by (simp add: unsubscribe_def detached_sendMessage)
next
  case (TransportOpen k)
  assume "detached h c"
  then show ?thesis
    using TransportOpen by (auto simp: detached_def transportOpen_def nth_list_update)
next
  case (TransportClose k)
  assume "detached h c"
  then show ?thesis
    using TransportClose
    by (auto simp: detached_def transportClose_def handleWebSocketClose_def reconnect_def fire_def
        Let_def nth_list_update)
next
  case (TransportError k)
  assume "detached h c"
  then show ?thesis
    using TransportError by (auto simp: detached_def handleWebSocketError_def fire_def split: option.splits if_splits)
next
  case (TransportMessage k data)
  assume "detached h c"
  then show ?thesis
    using TransportMessage by (auto simp: detached_def handleWebSocketMessage_def fire_def split: option.splits if_splits eventData.splits)
qed

lemma detached_run: "detached h c \<Longrightarrow> detached h (run authNames as c)"
  by (induction as arbitrary: c) (simp_all add: detached_step)

lemma detached_transportClose: "detached h c \<Longrightarrow> timers (transportClose h c) = timers c"
  by (simp add: detached_def transportClose_def Let_def)

lemma detached_disconnect:
  "webSocket c = Some h \<Longrightarrow> h < length (sockets c) \<Longrightarrow> detached h (disconnect c)"
  by (simp add: detached_def disconnect_def destroyWebSocket_def webSocketClose_def fire_def)

lemma timers_step:
  assumes "timers (step authNames a c) \<noteq> timers c"
  shows "\<exists>h. a = TransportClose h \<and> h < length (sockets c) \<and> onclose (sockets c ! h) \<and>
           shouldReconnectAutomatically c"
proof (cases a)
  case Connect
  then show ?thesis
    using assms
    by (auto simp: connect_def createWebSocket_def waitForOpen_def connectResolved_def fire_def
        resetReconnectionState_def split: option.splits if_splits)
next
  case (PollWaitForOpen k)
  then show ?thesis
    using assms
    by (auto simp: pollWaitForOpen_def waitForOpen_def connectResolved_def fire_def
        resetReconnectionState_def split: if_splits)
next
  case Disconnect
  then show ?thesis
    using assms by (auto simp: disconnect_def destroyWebSocket_def fire_def split: option.splits)
next
  case ListSubscriptions
  then show ?thesis using assms by (simp add: listSubscriptions_def timers_sendMessage)
next
  case (Subscribe subs cid')
  then show ?thesis using assms by (simp add: timers_subscribe)
next
  case (SubscribeAuthenticated subs)
  then show ?thesis using assms by (simp add: subscribeAuthenticated_def timers_subscribe)
next
  case (SubscribeUnauthenticated subs)
  then show ?thesis using assms by (simp add: subscribeUnauthenticated_def timers_subscribe)
next
  case (Unsubscribe subs)
  then show ?thesis using assms by (simp add: unsubscribe_def timers_sendMessage)
next
  case (TransportOpen k)
  then show ?thesis using assms by (auto simp: transportOpen_def split: if_splits)
next
  case (TransportClose k)
  then show ?thesis
    using assms
    by (auto simp: transportClose_def handleWebSocketClose_def reconnect_def fire_def Let_def
        split: if_splits)
next
  case (TransportError k)
  then show ?thesis using assms by (auto simp: handleWebSocketError_def fire_def split: option.splits if_splits)
next
  case (TransportMessage k data)
  then show ?thesis using assms by (auto simp: handleWebSocketMessage_def fire_def split: option.splits if_splits eventData.splits)
qed

text \<open>
  C8. The only step that schedules a reconnect is the close event of a transport whose
  \<^verbatim>\<open>onclose\<close> still holds the client's handler, with the policy on. \<^verbatim>\<open>disconnect\<close>
  schedules nothing and leaves the transport it closes with \<^verbatim>\<open>onclose = null\<close>, so
  the close event of that transport schedules nothing either, whether it comes at once
  or after any further steps of the client.
\<close>

theorem reconnect_only_on_transport_close:
  "(timers (step authNames a c) \<noteq> timers c \<longrightarrow>
      (\<exists>h. a = TransportClose h \<and> h < length (sockets c) \<and> onclose (sockets c ! h) \<and>
           shouldReconnectAutomatically c)) \<and>
   timers (disconnect c) = timers c \<and>
   (webSocket c = Some h \<and> h < length (sockets c) \<longrightarrow>
      \<not> onclose (sockets (disconnect c) ! h) \<and>
      timers (transportClose h (disconnect c)) = timers c \<and>
      timers (transportClose h (run authNames as (disconnect c))) =
        timers (run authNames as (disconnect c)))"
proof (intro conjI impI)
  show "\<exists>h. a = TransportClose h \<and> h < length (sockets c) \<and> onclose (sockets c ! h) \<and>
           shouldReconnectAutomatically c"
    if "timers (step authNames a c) \<noteq> timers c"
    using that by (rule timers_step)
  show t: "timers (disconnect c) = timers c"
    by (simp add: disconnect_def destroyWebSocket_def fire_def split: option.splits)
  assume "webSocket c = Some h \<and> h < length (sockets c)"
  then have d: "detached h (disconnect c)"
    by (simp add: detached_disconnect)
  show "\<not> onclose (sockets (disconnect c) ! h)"
    using d by (simp add: detached_def)
  show "timers (transportClose h (disconnect c)) = timers c"
    using detached_transportClose [OF d] t by simp
  show "timers (transportClose h (run authNames as (disconnect c))) =
        timers (run authNames as (disconnect c))"
    using detached_transportClose [OF detached_run [OF d]] .
qed

theorem reconnect_only_on_transport_close_witness:
  "webSocket connectedClient = Some 0 \<and>
   shouldReconnectAutomatically connectedClient \<and>
   timers connectedClient = [] \<and>
   timers (step exampleAuthNames (TransportClose 0) connectedClient) = [1000] \<and>
   onclose (sockets connectedClient ! 0) \<and>
   timers (transportClose 0 (disconnect connectedClient)) = [] \<and>
   timers (transportClose 0 (run exampleAuthNames [Connect, TransportOpen 1, PollWaitForOpen 1]
      (disconnect connectedClient))) = []"
proof -
  have w: "webSocket connectedClient = Some 0 \<and> 0 < length (sockets connectedClient)"
    by (simp add: connectedClient_def)
  have s: "timers (step exampleAuthNames (TransportClose 0) connectedClient) = [1000]"
    by (simp add: connectedClient_def lifecycle_defs numeral_eq_enat Let_def)
  then have n: "timers (step exampleAuthNames (TransportClose 0) connectedClient) \<noteq>
      timers connectedClient"
    by (simp add: connectedClient_def)
  have r: "timers (run exampleAuthNames [Connect, TransportOpen 1, PollWaitForOpen 1]
      (disconnect connectedClient)) = []"
    by (simp add: connectedClient_def lifecycle_defs Let_def)
  have p: "shouldReconnectAutomatically connectedClient" "timers connectedClient = []"
    by (simp_all add: connectedClient_def)
  show ?thesis
    using w s n r p
      reconnect_only_on_transport_close [of exampleAuthNames "TransportClose 0" connectedClient 0
        "[Connect, TransportOpen 1, PollWaitForOpen 1]"]
    by simp
qed

subsection \<open>Optional fields of the normaliser\<close>

lemma spreadNumber_iff: "spreadNumber x = Some k \<longleftrightarrow> x = Some k \<and> k \<noteq> 0"
  by (auto simp: spreadNumber_def split: option.splits)

lemma spreadString_iff: "spreadString x = Some s \<longleftrightarrow> x = Some s \<and> s \<noteq> []"
  by (auto simp: spreadString_def truthy_def split: option.splits)

lemma transformTickersMessage_numTrades:
  "tickerNumTrades (transformTickersMessage t) = (if ticker_n t = Some 0 then None else ticker_n t)"
  by (simp add: transformTickersMessage_def spreadNumber_def split: option.splits)

lemma transformOrdersMessage_optional:
  "orderOrderBookSequenceNumber (transformOrdersMessage order) =
     (if order_u order = Some 0 then None else order_u order) \<and>
   orderOriginalQuoteQuantity (transformOrdersMessage order) =
     (if order_Q order = Some [] then None else order_Q order) \<and>
   orderAvgExecutionPrice (transformOrdersMessage order) =
     (if order_v order = Some [] then None else order_v order) \<and>
   orderLimitOrderPrice (transformOrdersMessage order) =
     (if order_p order = Some [] then None else order_p order) \<and>
   orderStopOrderPrice (transformOrdersMessage order) =
     (if order_P order = Some [] then None else order_P order) \<and>
   orderFills (transformOrdersMessage order) = map_option (map transformOrderFill) (order_F order)"
  by (simp add: transformOrdersMessage_def spreadNumber_def spreadString_def truthy_def
      split: option.splits)

lemma transformL2orderbooksMessage_optional:
  "l2Bids (transformL2orderbooksMessage l2orderbook) = l2_b l2orderbook \<and>
   l2Asks (transformL2orderbooksMessage l2orderbook) = l2_a l2orderbook"
  by (simp add: transformL2orderbooksMessage_def)

lemma transformOrderFill_optional:
  "fillGas (transformOrderFill fill) = (if fill_g fill = Some [] then None else fill_g fill) \<and>
   fillTxId (transformOrderFill fill) = (if fill_T fill = Some [] then None else fill_T fill)"
  by (simp add: transformOrderFill_def spreadString_def truthy_def split: option.splits)

lemma transformCandlesMessage_numTrades:
  "candleNumTrades (transformCandlesMessage candle) = candle_n candle"
  by (simp add: transformCandlesMessage_def)

text \<open>
  C4. The claim is that a present optional field is carried over with its value. For
  the short-form ticker \<open>zeroTradesTicker\<close>, whose trade count \<^verbatim>\<open>n\<close> is present and
  is \<open>0\<close>, \<^verbatim>\<open>transformTickersMessage\<close> leaves \<^verbatim>\<open>numTrades\<close> out: the spread
  \<^verbatim>\<open>...(ticker.n && { numTrades: ticker.n })\<close> tests the value, not the presence
  (\<open>transformTickersMessage_numTrades\<close>), while \<^verbatim>\<open>transformCandlesMessage\<close> copies the
  trade count of a candle as it is (\<open>transformCandlesMessage_numTrades\<close>). The lemmas
  before this one give every conditional field of the tickers, orders, fills and
  level-2 order books: an optional array is carried over whenever it is present, an
  optional number unless it is absent or zero, an optional string unless it is absent
  or empty.
\<close>

theorem ticker_zero_trades_dropped:
  "ticker_n zeroTradesTicker = Some 0 \<and>
   tickerNumTrades (transformTickersMessage zeroTradesTicker) = None"
  by (simp add: zeroTradesTicker_def transformTickersMessage_def spreadNumber_def)

end
